theory Spec2Isabelle
  imports Main "HOL-Library.Sublist"
begin

section \<open>Strings and regular expressions as the service uses them\<close>

text \<open>
  A Python \<open>str\<close> is a sequence of code points and \<open>len\<close> counts them. The model uses
  \<^typ>\<open>string\<close>, reading every \<^typ>\<open>char\<close> as one code point in the range 0..255
  (Latin-1); \<open>str.lower\<close>, \<open>str.strip\<close> and the classes of \<open>re\<close> are written out for
  that range.
\<close>

definition ch_range :: "char \<Rightarrow> char \<Rightarrow> char \<Rightarrow> bool" where
  "ch_range lo hi c = ((of_char lo :: nat) \<le> of_char c \<and> (of_char c :: nat) \<le> of_char hi)"

definition py_isspace :: "char \<Rightarrow> bool" where
  "py_isspace c =
     (let n = (of_char c :: nat)
      in (9 \<le> n \<and> n \<le> 13) \<or> (28 \<le> n \<and> n \<le> 32) \<or> n = 133 \<or> n = 160)"

definition py_lower_char :: "char \<Rightarrow> char" where
  "py_lower_char c =
     (let n = (of_char c :: nat)
      in if (65 \<le> n \<and> n \<le> 90) \<or> (192 \<le> n \<and> n \<le> 222 \<and> n \<noteq> 215)
         then char_of (n + 32) else c)"

definition py_lower :: "string \<Rightarrow> string" where
  "py_lower s = map py_lower_char s"

definition py_strip :: "string \<Rightarrow> string" where
  "py_strip s = rev (dropWhile py_isspace (rev (dropWhile py_isspace s)))"

text \<open>
  The patterns handed to \<open>re\<close> are built from character classes, concatenation and
  repetition only, so whether \<open>re.match\<close> or \<open>re.search\<close> finds a match is language
  membership. The matcher below decides it by derivatives.
\<close>

datatype rx = Zero | One | Atom "char \<Rightarrow> bool" | Alt rx rx | Seq rx rx | Star rx

fun nullable :: "rx \<Rightarrow> bool" where
  "nullable Zero = False"
| "nullable One = True"
| "nullable (Atom P) = False"
| "nullable (Alt r s) = (nullable r \<or> nullable s)"
| "nullable (Seq r s) = (nullable r \<and> nullable s)"
| "nullable (Star r) = True"

fun deriv :: "char \<Rightarrow> rx \<Rightarrow> rx" where
  "deriv c Zero = Zero"
| "deriv c One = Zero"
| "deriv c (Atom P) = (if P c then One else Zero)"
| "deriv c (Alt r s) = Alt (deriv c r) (deriv c s)"
| "deriv c (Seq r s) =
     (if nullable r then Alt (Seq (deriv c r) s) (deriv c s) else Seq (deriv c r) s)"
| "deriv c (Star r) = Seq (deriv c r) (Star r)"

fun rmatch :: "rx \<Rightarrow> string \<Rightarrow> bool" where
  "rmatch r [] = nullable r"
| "rmatch r (c # cs) = rmatch (deriv c r) cs"

definition Plus :: "rx \<Rightarrow> rx" where
  "Plus r = Seq r (Star r)"

text \<open>
  \<open>re.match('^' + r + '$', s)\<close>: the whole of \<open>s\<close> matches, or \<open>s\<close> ends in a newline
  and the rest matches (\<open>$\<close> also matches just before a final newline).
\<close>

definition re_match_anchored :: "rx \<Rightarrow> string \<Rightarrow> bool" where
  "re_match_anchored r s =
     (rmatch r s \<or> (s \<noteq> [] \<and> last s = CHR 0x0A \<and> rmatch r (butlast s)))"

text \<open>\<open>re.search(r, s)\<close>: some substring of \<open>s\<close> matches.\<close>

definition re_search :: "rx \<Rightarrow> string \<Rightarrow> bool" where
  "re_search r s = list_ex (\<lambda>t. list_ex (rmatch r) (prefixes t)) (suffixes s)"

section \<open>Credential validation (AuthenticationService)\<close>

record password_requirements =
  min_length :: nat
  require_uppercase :: bool
  require_lowercase :: bool
  require_number :: bool
  require_special :: bool

definition the_password_requirements :: password_requirements where
  "the_password_requirements =
     \<lparr> min_length = 8, require_uppercase = True, require_lowercase = True,
       require_number = True, require_special = True \<rparr>"

definition cls_local :: "char \<Rightarrow> bool" where
  "cls_local c =
     (ch_range CHR ''a'' CHR ''z'' c \<or> ch_range CHR ''A'' CHR ''Z'' c
      \<or> ch_range CHR ''0'' CHR ''9'' c \<or> c \<in> set ''._%+-'')"

definition cls_domain :: "char \<Rightarrow> bool" where
  "cls_domain c =
     (ch_range CHR ''a'' CHR ''z'' c \<or> ch_range CHR ''A'' CHR ''Z'' c
      \<or> ch_range CHR ''0'' CHR ''9'' c \<or> c \<in> set ''.-'')"

definition cls_alpha :: "char \<Rightarrow> bool" where
  "cls_alpha c = (ch_range CHR ''a'' CHR ''z'' c \<or> ch_range CHR ''A'' CHR ''Z'' c)"

definition cls_upper :: "char \<Rightarrow> bool" where
  "cls_upper c = ch_range CHR ''A'' CHR ''Z'' c"

definition cls_lower :: "char \<Rightarrow> bool" where
  "cls_lower c = ch_range CHR ''a'' CHR ''z'' c"

definition cls_digit :: "char \<Rightarrow> bool" where
  "cls_digit c = ch_range CHR ''0'' CHR ''9'' c"

definition special_characters :: string where
  "special_characters = ''!@#$%^&*(),.?'' @ [CHR 0x22] @ '':{}|<>''"

definition cls_special :: "char \<Rightarrow> bool" where
  "cls_special c = (c \<in> set special_characters)"

text \<open>The pattern \<open>^[a-zA-Z0-9._%+-]+@[a-zA-Z0-9.-]+\.[a-zA-Z]{2,}$\<close>.\<close>

definition email_pattern :: rx where
  "email_pattern =
     Seq (Plus (Atom cls_local))
       (Seq (Atom (\<lambda>c. c = CHR ''@''))
         (Seq (Plus (Atom cls_domain))
           (Seq (Atom (\<lambda>c. c = CHR ''.''))
             (Seq (Atom cls_alpha) (Seq (Atom cls_alpha) (Star (Atom cls_alpha)))))))"

definition validate_email :: "string \<Rightarrow> bool" where
  "validate_email email = re_match_anchored email_pattern email"

definition msg_min_length :: string where
  "msg_min_length = ''Password must be at least 8 characters long''"

definition msg_uppercase :: string where
  "msg_uppercase = ''Password must contain at least one uppercase letter''"

definition msg_lowercase :: string where
  "msg_lowercase = ''Password must contain at least one lowercase letter''"

definition msg_number :: string where
  "msg_number = ''Password must contain at least one number''"

definition msg_special :: string where
  "msg_special = ''Password must contain at least one special character''"

text \<open>
  \<open>validate_password\<close> appends to the list \<open>errors\<close> one check after the other and
  returns \<open>(len(errors) == 0, errors)\<close>.
\<close>

definition validate_password :: "string \<Rightarrow> bool \<times> string list" where
  "validate_password password =
     (let req = the_password_requirements;
          errors0 = [];
          errors1 = (if length password < min_length req
                     then errors0 @ [msg_min_length] else errors0);
          errors2 = (if require_uppercase req \<and> \<not> re_search (Atom cls_upper) password
                     then errors1 @ [msg_uppercase] else errors1);
          errors3 = (if require_lowercase req \<and> \<not> re_search (Atom cls_lower) password
                     then errors2 @ [msg_lowercase] else errors2);
          errors4 = (if require_number req \<and> \<not> re_search (Atom cls_digit) password
                     then errors3 @ [msg_number] else errors3);
          errors5 = (if require_special req \<and> \<not> re_search (Atom cls_special) password
                     then errors4 @ [msg_special] else errors4)
      in (length errors5 = 0, errors5))"

section \<open>Data model (models/user.py)\<close>

text \<open>
  The columns of \<open>User\<close> and \<open>UserSession\<close> that the authentication service reads or
  writes. Both classes have columns \<open>id\<close>, \<open>is_active\<close> and \<open>created_at\<close>, so the fields
  carry the prefix \<open>u_\<close> or \<open>s_\<close>. A \<open>datetime\<close> is a number of microseconds since the
  epoch. \<open>password_hash\<close> is optional because \<open>check_password\<close> tests it for absence.
\<close>

type_synonym datetime = int

record user =
  u_id :: nat
  u_name :: string
  u_email :: string
  u_password_hash :: "string option"
  u_preferred_language :: string
  u_phone :: "string option"
  u_bio :: "string option"
  u_is_active :: bool
  u_is_verified :: bool
  u_email_verified_at :: "datetime option"
  u_last_login_at :: "datetime option"
  u_created_at :: datetime

record user_session =
  s_id :: nat
  s_user_id :: nat
  session_token :: string
  ip_address :: "string option"
  user_agent :: "string option"
  s_is_active :: bool
  s_created_at :: datetime
  last_activity :: datetime
  expires_at :: datetime

text \<open>The relational store: the two tables, rows in insertion order.\<close>

record db =
  users :: "user list"
  user_sessions :: "user_session list"

datatype py_error = ValueError | IntegrityError | OperationalError | PendingRollbackError

text \<open>
  What an operation takes from its surroundings: the clock (\<open>datetime.utcnow()\<close>), the
  random token ids of the two tokens it may issue, the salt of \<open>bcrypt.gensalt()\<close>, the
  offset of local time from UTC (\<open>datetime.fromtimestamp\<close> returns local time), and
  whether decoding the token raises inside \<open>create_user_session\<close>, and whether the
  store raises when the session row is committed. The other reads and commits of the
  store are taken to succeed, apart from the unique columns, which are checked.
\<close>

record env =
  utcnow :: datetime
  access_jti :: string
  refresh_jti :: string
  gensalt :: string
  utc_offset :: int
  token_decode_raises :: bool
  session_commit_raises :: bool

text \<open>
  The \<open>bcrypt\<close> library is not part of the repository; the model takes its two
  functions as a parameter. \<open>checkpw\<close> may raise (\<open>ValueError: Invalid salt\<close>).
\<close>

record bcrypt_lib =
  hashpw :: "string \<Rightarrow> string \<Rightarrow> string"
  checkpw :: "string \<Rightarrow> string \<Rightarrow> py_error + bool"

subsection \<open>User\<close>

text \<open>\<open>User.__init__\<close>; the column defaults are filled in when the row is inserted.\<close>

definition User :: "string \<Rightarrow> string \<Rightarrow> string \<Rightarrow> user" where
  "User name email preferred_language =
     \<lparr> u_id = 0, u_name = name, u_email = py_strip (py_lower email),
       u_password_hash = None, u_preferred_language = preferred_language,
       u_phone = None, u_bio = None, u_is_active = True, u_is_verified = False,
       u_email_verified_at = None, u_last_login_at = None, u_created_at = 0 \<rparr>"

definition set_password :: "bcrypt_lib \<Rightarrow> string \<Rightarrow> user \<Rightarrow> string \<Rightarrow> py_error + user" where
  "set_password B salt self password =
     (if password = [] then Inl ValueError
      else Inr (self\<lparr>u_password_hash := Some (hashpw B password salt)\<rparr>))"

definition check_password :: "bcrypt_lib \<Rightarrow> user \<Rightarrow> string \<Rightarrow> py_error + bool" where
  "check_password B self password =
     (case u_password_hash self of
        None \<Rightarrow> Inr False
      | Some h \<Rightarrow> if password = [] \<or> h = [] then Inr False else checkpw B password h)"

definition is_premium_user :: "user \<Rightarrow> bool" where
  "is_premium_user self = False"

text \<open>
  \<open>to_dict\<close>: the projection returned to the caller, without the password hash. The
  statistics it also carries are counts over tables outside this model.
\<close>

record user_dict =
  d_id :: nat
  d_name :: string
  d_email :: string
  d_preferred_language :: string
  d_phone :: "string option"
  d_bio :: "string option"
  d_is_verified :: bool
  d_created_at :: datetime

definition to_dict :: "user \<Rightarrow> user_dict" where
  "to_dict self =
     \<lparr> d_id = u_id self, d_name = u_name self, d_email = u_email self,
       d_preferred_language = u_preferred_language self, d_phone = u_phone self,
       d_bio = u_bio self, d_is_verified = u_is_verified self,
       d_created_at = u_created_at self \<rparr>"

subsection \<open>UserSession\<close>

definition is_expired :: "datetime \<Rightarrow> user_session \<Rightarrow> bool" where
  "is_expired now self = (now > expires_at self)"

definition update_activity :: "datetime \<Rightarrow> user_session \<Rightarrow> user_session" where
  "update_activity now self = self\<lparr>last_activity := now\<rparr>"

definition revoke :: "user_session \<Rightarrow> user_session" where
  "revoke self = self\<lparr>s_is_active := False\<rparr>"

subsection \<open>The store\<close>

text \<open>
  A row fetched with \<open>first()\<close> or \<open>get()\<close>, changed and committed: the first row
  satisfying the filter is replaced. Rows fetched with \<open>all()\<close> and changed in a loop:
  every row satisfying the filter is replaced.
\<close>

fun update_first :: "('a \<Rightarrow> bool) \<Rightarrow> ('a \<Rightarrow> 'a) \<Rightarrow> 'a list \<Rightarrow> 'a list" where
  "update_first P f [] = []"
| "update_first P f (x # xs) = (if P x then f x # xs else x # update_first P f xs)"

definition update_all :: "('a \<Rightarrow> bool) \<Rightarrow> ('a \<Rightarrow> 'a) \<Rightarrow> 'a list \<Rightarrow> 'a list" where
  "update_all P f xs = map (\<lambda>x. if P x then f x else x) xs"

definition fresh_id :: "nat list \<Rightarrow> nat" where
  "fresh_id ids = Suc (foldr max ids 0)"

text \<open>
  Inserting a row fills in the primary key and the column defaults; the unique columns
  (\<open>users.email\<close>, \<open>user_sessions.session_token\<close>) make the commit raise on a duplicate.
\<close>

definition add_user :: "env \<Rightarrow> db \<Rightarrow> user \<Rightarrow> py_error + (db \<times> user)" where
  "add_user e d u =
     (if list_ex (\<lambda>x. u_email x = u_email u) (users d) then Inl IntegrityError
      else let row = u\<lparr>u_id := fresh_id (map u_id (users d)), u_created_at := utcnow e\<rparr>
           in Inr (d\<lparr>users := users d @ [row]\<rparr>, row))"

definition add_session :: "env \<Rightarrow> db \<Rightarrow> user_session \<Rightarrow> py_error + (db \<times> user_session)" where
  "add_session e d s =
     (if session_commit_raises e then Inl OperationalError
      else if list_ex (\<lambda>x. session_token x = session_token s) (user_sessions d)
      then Inl IntegrityError
      else let row = s\<lparr>s_id := fresh_id (map s_id (user_sessions d)),
                       s_is_active := True, s_created_at := utcnow e,
                       last_activity := utcnow e\<rparr>
           in Inr (d\<lparr>user_sessions := user_sessions d @ [row]\<rparr>, row))"

section \<open>Tokens (flask_jwt_extended)\<close>

datatype token_kind = AccessToken | RefreshToken

record jwt =
  jwt_kind :: token_kind
  jwt_sub :: nat
  jwt_jti :: string
  jwt_exp :: int
  jwt_claims :: "(string \<times> string) list"

text \<open>
  The expiry claim is a whole number of seconds: the time of issue, truncated, plus the
  lifetime.
\<close>

definition create_access_token ::
  "env \<Rightarrow> nat \<Rightarrow> int \<Rightarrow> (string \<times> string) list \<Rightarrow> jwt" where
  "create_access_token e identity expires_delta additional_claims =
     \<lparr> jwt_kind = AccessToken, jwt_sub = identity, jwt_jti = access_jti e,
       jwt_exp = utcnow e div 1000000 + expires_delta, jwt_claims = additional_claims \<rparr>"

definition create_refresh_token :: "env \<Rightarrow> nat \<Rightarrow> int \<Rightarrow> jwt" where
  "create_refresh_token e identity expires_delta =
     \<lparr> jwt_kind = RefreshToken, jwt_sub = identity, jwt_jti = refresh_jti e,
       jwt_exp = utcnow e div 1000000 + expires_delta, jwt_claims = [] \<rparr>"

definition get_jti :: "jwt \<Rightarrow> string" where
  "get_jti token = jwt_jti token"

definition datetime_fromtimestamp :: "env \<Rightarrow> int \<Rightarrow> datetime" where
  "datetime_fromtimestamp e ts = ts * 1000000 + utc_offset e"

definition hours :: "int \<Rightarrow> int" where
  "hours n = n * 3600"

definition days :: "int \<Rightarrow> int" where
  "days n = n * 86400"

section \<open>AuthenticationService (services/auth_service.py)\<close>

text \<open>
  Every operation takes the store and returns its result with the store it leaves.
  A response is the dictionary the service returns; a key that is not set is \<open>None\<close>.
\<close>

record response =
  success :: bool
  message :: "string option"
  resp_user :: "user_dict option"
  access_token :: "jwt option"
  refresh_token :: "jwt option"

definition failure :: "string \<Rightarrow> response" where
  "failure msg =
     \<lparr> success = False, message = Some msg, resp_user = None,
       access_token = None, refresh_token = None \<rparr>"

definition succeeded :: "string \<Rightarrow> response" where
  "succeeded msg =
     \<lparr> success = True, message = Some msg, resp_user = None,
       access_token = None, refresh_token = None \<rparr>"

fun py_join :: "string \<Rightarrow> string list \<Rightarrow> string" where
  "py_join sep [] = []"
| "py_join sep [x] = x"
| "py_join sep (x # y # ys) = x @ sep @ py_join sep (y # ys)"

text \<open>
  \<open>create_user_session\<close>: any exception inside is caught and \<open>None\<close> is returned,
  without \<open>db.session.rollback()\<close>. When the exception came from the commit, the ORM
  session is left with a failed transaction that nobody rolled back. The result is the
  returned session, whether the ORM session is left in that state, and the store.
\<close>

definition create_user_session ::
  "env \<Rightarrow> db \<Rightarrow> nat \<Rightarrow> jwt \<Rightarrow> string option \<Rightarrow> string option
     \<Rightarrow> (user_session option \<times> bool) \<times> db" where
  "create_user_session e d user_id token ip ua =
     (if token_decode_raises e then ((None, False), d)
      else
        let expires = datetime_fromtimestamp e (jwt_exp token);
            session = \<lparr> s_id = 0, s_user_id = user_id, session_token = get_jti token,
                        ip_address = ip, user_agent = ua, s_is_active = True,
                        s_created_at = 0, last_activity = 0, expires_at = expires \<rparr>
        in case add_session e d session of
             Inl err \<Rightarrow> ((None, True), d)
           | Inr (d', row) \<Rightarrow> ((Some row, False), d'))"

text \<open>
  \<open>register_user\<close> and \<open>authenticate_user\<close> build their answer with \<open>user.to_dict()\<close>,
  which reads the row and counts over the related tables through the ORM session. On a
  session whose transaction failed and was not rolled back, that read raises, and the
  \<open>except\<close> of the operation answers with its failure message.
\<close>

definition to_dict_in_session :: "bool \<Rightarrow> user \<Rightarrow> py_error + user_dict" where
  "to_dict_in_session pending_rollback self =
     (if pending_rollback then Inl PendingRollbackError else Inr (to_dict self))"

definition register_user ::
  "bcrypt_lib \<Rightarrow> env \<Rightarrow> db \<Rightarrow> string \<Rightarrow> string \<Rightarrow> string \<Rightarrow> string
     \<Rightarrow> (string \<times> string option) list \<Rightarrow> response \<times> db" where
  "register_user B e d name email password preferred_language kwargs =
     (if name = [] \<or> py_strip name = [] then (failure ''Name is required'', d)
      else if email = [] \<or> \<not> validate_email email
      then (failure ''Valid email is required'', d)
      else
        let email' = py_strip (py_lower email);
            is_valid_password = fst (validate_password password);
            password_errors = snd (validate_password password)
        in if \<not> is_valid_password then (failure (py_join ''; '' password_errors), d)
           else
             (case find (\<lambda>u. u_email u = email') (users d) of
                Some existing_user \<Rightarrow> (failure ''Email already registered'', d)
              | None \<Rightarrow>
                 (case set_password B (gensalt e)
                         (User (py_strip name) email' preferred_language) password of
                    Inl err \<Rightarrow> (failure ''Registration failed'', d)
                  | Inr u0 \<Rightarrow>
                     let u1 = (case map_of kwargs ''phone'' of
                                 None \<Rightarrow> u0 | Some v \<Rightarrow> u0\<lparr>u_phone := v\<rparr>);
                         u2 = (case map_of kwargs ''bio'' of
                                 None \<Rightarrow> u1 | Some v \<Rightarrow> u1\<lparr>u_bio := v\<rparr>)
                     in (case add_user e d u2 of
                           Inl err \<Rightarrow> (failure ''Registration failed'', d)
                         | Inr (d1, usr) \<Rightarrow>
                            let acc = create_access_token e (u_id usr) (hours 1)
                                        [(''user_type'', ''regular''), (''email'', u_email usr)];
                                rfr = create_refresh_token e (u_id usr) (days 30);
                                cs = create_user_session e d1 (u_id usr) acc None None;
                                pending_rollback = snd (fst cs);
                                d2 = snd cs
                            in (case to_dict_in_session pending_rollback usr of
                                  Inl err \<Rightarrow> (failure ''Registration failed'', d2)
                                | Inr user_dict \<Rightarrow>
                                   (\<lparr> success = True,
                                      message = Some ''User registered successfully'',
                                      resp_user = Some user_dict,
                                      access_token = Some acc,
                                      refresh_token = Some rfr \<rparr>, d2))))))"

definition update_last_login :: "env \<Rightarrow> db \<Rightarrow> user \<Rightarrow> db \<times> user" where
  "update_last_login e d self =
     (d\<lparr>users := update_first (\<lambda>u. u_id u = u_id self)
                    (\<lambda>u. u\<lparr>u_last_login_at := Some (utcnow e)\<rparr>) (users d)\<rparr>,
      self\<lparr>u_last_login_at := Some (utcnow e)\<rparr>)"

definition authenticate_user ::
  "bcrypt_lib \<Rightarrow> env \<Rightarrow> db \<Rightarrow> string \<Rightarrow> string \<Rightarrow> string option \<Rightarrow> string option
     \<Rightarrow> response \<times> db" where
  "authenticate_user B e d email password ip ua =
     (if email = [] \<or> password = [] then (failure ''Email and password are required'', d)
      else
        let email' = py_strip (py_lower email)
        in case find (\<lambda>u. u_email u = email' \<and> u_is_active u) (users d) of
             None \<Rightarrow> (failure ''Invalid credentials'', d)
           | Some usr \<Rightarrow>
              (case check_password B usr password of
                 Inl err \<Rightarrow> (failure ''Authentication failed'', d)
               | Inr ok \<Rightarrow>
                  if \<not> ok then (failure ''Invalid credentials'', d)
                  else
                    let d1 = fst (update_last_login e d usr);
                        usr1 = snd (update_last_login e d usr);
                        additional_claims =
                          [(''user_type'', if is_premium_user usr1 then ''premium'' else ''regular''),
                           (''email'', u_email usr1),
                           (''preferred_language'', u_preferred_language usr1)];
                        acc = create_access_token e (u_id usr1) (hours 1) additional_claims;
                        rfr = create_refresh_token e (u_id usr1) (days 30);
                        cs = create_user_session e d1 (u_id usr1) acc ip ua;
                        pending_rollback = snd (fst cs);
                        d2 = snd cs
                    in (case to_dict_in_session pending_rollback usr1 of
                          Inl err \<Rightarrow> (failure ''Authentication failed'', d2)
                        | Inr user_dict \<Rightarrow>
                           (\<lparr> success = True, message = Some ''Login successful'',
                              resp_user = Some user_dict,
                              access_token = Some acc,
                              refresh_token = Some rfr \<rparr>, d2))))"

definition refresh_access_token :: "env \<Rightarrow> db \<Rightarrow> nat \<Rightarrow> response \<times> db" where
  "refresh_access_token e d user_id =
     (case find (\<lambda>u. u_id u = user_id) (users d) of
        None \<Rightarrow> (failure ''User not found or inactive'', d)
      | Some usr \<Rightarrow>
         if \<not> u_is_active usr then (failure ''User not found or inactive'', d)
         else
           let additional_claims =
                 [(''user_type'', if is_premium_user usr then ''premium'' else ''regular''),
                  (''email'', u_email usr),
                  (''preferred_language'', u_preferred_language usr)];
               acc = create_access_token e (u_id usr) (hours 1) additional_claims
           in (\<lparr> success = True, message = None, resp_user = None,
                  access_token = Some acc, refresh_token = None \<rparr>, d))"

definition revoke_user_session :: "db \<Rightarrow> string \<Rightarrow> bool \<times> db" where
  "revoke_user_session d token =
     (case find (\<lambda>s. session_token s = token) (user_sessions d) of
        Some session \<Rightarrow>
          (True, d\<lparr>user_sessions :=
                     update_first (\<lambda>s. session_token s = token) revoke (user_sessions d)\<rparr>)
      | None \<Rightarrow> (False, d))"

definition revoke_all_user_sessions :: "db \<Rightarrow> nat \<Rightarrow> nat \<times> db" where
  "revoke_all_user_sessions d user_id =
     (let sessions = filter (\<lambda>s. s_user_id s = user_id \<and> s_is_active s) (user_sessions d)
      in (length sessions,
          d\<lparr>user_sessions :=
              update_all (\<lambda>s. s_user_id s = user_id \<and> s_is_active s) revoke
                (user_sessions d)\<rparr>))"

definition change_user_password ::
  "bcrypt_lib \<Rightarrow> env \<Rightarrow> db \<Rightarrow> nat \<Rightarrow> string \<Rightarrow> string \<Rightarrow> response \<times> db" where
  "change_user_password B e d user_id current_password new_password =
     (case find (\<lambda>u. u_id u = user_id) (users d) of
        None \<Rightarrow> (failure ''User not found'', d)
      | Some usr \<Rightarrow>
         (case check_password B usr current_password of
            Inl err \<Rightarrow> (failure ''Password change failed'', d)
          | Inr ok \<Rightarrow>
             if \<not> ok then (failure ''Current password is incorrect'', d)
             else if \<not> fst (validate_password new_password)
             then (failure (py_join ''; '' (snd (validate_password new_password))), d)
             else
               (case set_password B (gensalt e) usr new_password of
                  Inl err \<Rightarrow> (failure ''Password change failed'', d)
                | Inr usr' \<Rightarrow>
                   let d1 = d\<lparr>users := update_first (\<lambda>u. u_id u = user_id)
                                 (\<lambda>u. u\<lparr>u_password_hash := u_password_hash usr'\<rparr>) (users d)\<rparr>;
                       d2 = snd (revoke_all_user_sessions d1 user_id)
                   in (succeeded ''Password changed successfully'', d2))))"

definition verify_user_email :: "env \<Rightarrow> db \<Rightarrow> nat \<Rightarrow> string \<Rightarrow> response \<times> db" where
  "verify_user_email e d user_id verification_token =
     (case find (\<lambda>u. u_id u = user_id) (users d) of
        None \<Rightarrow> (failure ''User not found'', d)
      | Some usr \<Rightarrow>
         (succeeded ''Email verified successfully'',
          d\<lparr>users := update_first (\<lambda>u. u_id u = user_id)
                 (\<lambda>u. u\<lparr>u_is_verified := True, u_email_verified_at := Some (utcnow e)\<rparr>)
                 (users d)\<rparr>))"

definition deactivate_user_account :: "db \<Rightarrow> nat \<Rightarrow> response \<times> db" where
  "deactivate_user_account d user_id =
     (case find (\<lambda>u. u_id u = user_id) (users d) of
        None \<Rightarrow> (failure ''User not found'', d)
      | Some usr \<Rightarrow>
         let d1 = d\<lparr>users := update_first (\<lambda>u. u_id u = user_id)
                       (\<lambda>u. u\<lparr>u_is_active := False\<rparr>) (users d)\<rparr>;
             d2 = snd (revoke_all_user_sessions d1 user_id)
         in (succeeded ''Account deactivated successfully'', d2))"

text \<open>
  \<open>delete_user_account\<close>: the relationship \<open>user_sessions\<close> is declared with
  \<open>cascade='all, delete-orphan'\<close>, so the user's session rows go with the user row.
\<close>

fun remove_first :: "('a \<Rightarrow> bool) \<Rightarrow> 'a list \<Rightarrow> 'a list" where
  "remove_first P [] = []"
| "remove_first P (x # xs) = (if P x then xs else x # remove_first P xs)"

definition delete_user_account :: "db \<Rightarrow> nat \<Rightarrow> response \<times> db" where
  "delete_user_account d user_id =
     (case find (\<lambda>u. u_id u = user_id) (users d) of
        None \<Rightarrow> (failure ''User not found'', d)
      | Some usr \<Rightarrow>
         (succeeded ''Account deleted permanently'',
          \<lparr> users = remove_first (\<lambda>u. u_id u = user_id) (users d),
            user_sessions = filter (\<lambda>s. s_user_id s \<noteq> user_id) (user_sessions d) \<rparr>))"

definition is_session_valid :: "env \<Rightarrow> db \<Rightarrow> string \<Rightarrow> bool \<times> db" where
  "is_session_valid e d token =
     (case find (\<lambda>s. session_token s = token \<and> s_is_active s) (user_sessions d) of
        None \<Rightarrow> (False, d)
      | Some session \<Rightarrow>
         if is_expired (utcnow e) session
         then (False, d\<lparr>user_sessions :=
                          update_first (\<lambda>s. session_token s = token \<and> s_is_active s) revoke
                            (user_sessions d)\<rparr>)
         else (True, d\<lparr>user_sessions :=
                         update_first (\<lambda>s. session_token s = token \<and> s_is_active s)
                           (update_activity (utcnow e)) (user_sessions d)\<rparr>))"

section \<open>The logout route (routes/auth.py)\<close>

text \<open>
  \<open>logout\<close> takes the \<open>jti\<close> of the caller's access token, revokes that session and
  answers with success whatever \<open>revoke_user_session\<close> returned.
\<close>

definition logout :: "db \<Rightarrow> string \<Rightarrow> response \<times> db" where
  "logout d session_token' =
     (let d' = snd (revoke_user_session d session_token')
      in (succeeded ''Logged out successfully'', d'))"

section \<open>Operations as data\<close>

text \<open>
  The operations of the service that read or write the session table, and the route
  above, as one datatype, so that a property can be stated of every one of them. The
  remaining methods of the service (profile, notification and privacy updates, the
  session listing and the two password-reset placeholders) touch no session row.
\<close>

datatype operation =
    Register string string string string "(string \<times> string option) list"
  | Authenticate string string "string option" "string option"
  | RefreshAccess nat
  | RevokeSession string
  | RevokeAll nat
  | ChangePassword nat string string
  | VerifyEmail nat string
  | Deactivate nat
  | DeleteAccount nat
  | IsSessionValid string
  | Logout string

fun run :: "bcrypt_lib \<Rightarrow> env \<Rightarrow> operation \<Rightarrow> db \<Rightarrow> db" where
  "run B e (Register n em pw lang kw) d = snd (register_user B e d n em pw lang kw)"
| "run B e (Authenticate em pw ip ua) d = snd (authenticate_user B e d em pw ip ua)"
| "run B e (RefreshAccess uid) d = snd (refresh_access_token e d uid)"
| "run B e (RevokeSession t) d = snd (revoke_user_session d t)"
| "run B e (RevokeAll uid) d = snd (revoke_all_user_sessions d uid)"
| "run B e (ChangePassword uid cur new) d = snd (change_user_password B e d uid cur new)"
| "run B e (VerifyEmail uid t) d = snd (verify_user_email e d uid t)"
| "run B e (Deactivate uid) d = snd (deactivate_user_account d uid)"
| "run B e (DeleteAccount uid) d = snd (delete_user_account d uid)"
| "run B e (IsSessionValid t) d = snd (is_session_valid e d t)"
| "run B e (Logout t) d = snd (logout d t)"

section \<open>Concrete surroundings for evaluation\<close>

text \<open>
  A stand-in for the \<open>bcrypt\<close> library with the library's interface: a hash is the
  29-character salt followed by a digest, and \<open>checkpw\<close> raises \<open>ValueError\<close> when the
  stored string does not start with a salt of that shape. The digest is a placeholder
  (the password itself); no theorem below depends on it except where it is named.
\<close>

definition bcrypt_sim :: bcrypt_lib where
  "bcrypt_sim =
     \<lparr> hashpw = (\<lambda>password salt. salt @ password),
       checkpw = (\<lambda>password hashed.
          if length hashed < 29 \<or> take 2 hashed \<noteq> ''$2'' then Inl ValueError
          else Inr (hashed = take 29 hashed @ password)) \<rparr>"

definition env0 :: env where
  "env0 =
     \<lparr> utcnow = 1000000000, access_jti = ''jti-a'', refresh_jti = ''jti-r'',
       gensalt = ''$2b$12$abcdefghijklmnopqrstuv'', utc_offset = 0,
       token_decode_raises = False, session_commit_raises = False \<rparr>"

definition empty_db :: db where
  "empty_db = \<lparr> users = [], user_sessions = [] \<rparr>"

definition session5 :: user_session where
  "session5 =
     \<lparr> s_id = 1, s_user_id = 1, session_token = ''jti-1'', ip_address = None,
       user_agent = None, s_is_active = True, s_created_at = 0, last_activity = 0,
       expires_at = 1000000000 \<rparr>"

definition db5 :: db where
  "db5 = \<lparr> users = [], user_sessions = [session5] \<rparr>"

definition env_later :: env where
  "env_later = env0\<lparr>utcnow := 2000000000\<rparr>"

definition user9 :: user where
  "user9 =
     \<lparr> u_id = 1, u_name = ''Ann'', u_email = ''ann@example.com'',
       u_password_hash = Some ''$2b$12$abcdefghijklmnopqrstuvStr0ng!Pass'',
       u_preferred_language = ''en'', u_phone = None, u_bio = None, u_is_active = True,
       u_is_verified = False, u_email_verified_at = None, u_last_login_at = None,
       u_created_at = 0 \<rparr>"

definition db9 :: db where
  "db9 = \<lparr> users = [user9], user_sessions = [session5] \<rparr>"

definition session8 :: user_session where
  "session8 =
     \<lparr> s_id = 2, s_user_id = 1, session_token = ''jti-0'', ip_address = None,
       user_agent = None, s_is_active = False, s_created_at = 0, last_activity = 0,
       expires_at = 3000000000 \<rparr>"

definition db8 :: db where
  "db8 = \<lparr> users = [user9], user_sessions = [session5, session8] \<rparr>"

definition new_password :: string where
  "new_password = ''N3w!Passw0rd''"

definition user6 :: user where
  "user6 = user9\<lparr>u_password_hash := Some ''not-a-bcrypt-hash''\<rparr>"

definition db6 :: db where
  "db6 = \<lparr> users = [user6], user_sessions = [] \<rparr>"

definition env_fail :: env where
  "env_fail = env0\<lparr>token_decode_raises := True\<rparr>"

section \<open>Notions used to state the facts and claims\<close>

text \<open>The unique column \<open>user_sessions.session_token\<close>.\<close>

definition unique_tokens :: "db \<Rightarrow> bool" where
  "unique_tokens d = distinct (map session_token (user_sessions d))"

text \<open>
  From one session table to the next, no session goes from inactive to active: a row
  that is inactive in the first has no active row of the same token in the second.
\<close>

definition keeps_revoked :: "user_session list \<Rightarrow> user_session list \<Rightarrow> bool" where
  "keeps_revoked ss ss' =
     (\<forall>s \<in> set ss. \<not> s_is_active s \<longrightarrow>
        (\<forall>s' \<in> set ss'. session_token s' = session_token s \<longrightarrow> \<not> s_is_active s'))"

text \<open>The row \<open>create_user_session\<close> inserts when the insert succeeds.\<close>

definition new_session_row :: "env \<Rightarrow> db \<Rightarrow> nat \<Rightarrow> jwt \<Rightarrow> string option \<Rightarrow> string option \<Rightarrow> user_session" where
  "new_session_row e d user_id token ip ua =
     \<lparr> s_id = fresh_id (map s_id (user_sessions d)), s_user_id = user_id,
       session_token = jwt_jti token, ip_address = ip, user_agent = ua, s_is_active = True,
       s_created_at = utcnow e, last_activity = utcnow e,
       expires_at = jwt_exp token * 1000000 + utc_offset e \<rparr>"

text \<open>The row \<open>register_user\<close> inserts when registration succeeds.\<close>

definition new_user_row ::
  "bcrypt_lib \<Rightarrow> env \<Rightarrow> db \<Rightarrow> string \<Rightarrow> string \<Rightarrow> string \<Rightarrow> string
     \<Rightarrow> (string \<times> string option) list \<Rightarrow> user" where
  "new_user_row B e d name email password preferred_language kwargs =
     \<lparr> u_id = fresh_id (map u_id (users d)), u_name = py_strip name,
       u_email = py_strip (py_lower email),
       u_password_hash = Some (hashpw B password (gensalt e)),
       u_preferred_language = preferred_language,
       u_phone = (case map_of kwargs ''phone'' of None \<Rightarrow> None | Some v \<Rightarrow> v),
       u_bio = (case map_of kwargs ''bio'' of None \<Rightarrow> None | Some v \<Rightarrow> v),
       u_is_active = True, u_is_verified = False,
       u_email_verified_at = None, u_last_login_at = None, u_created_at = utcnow e \<rparr>"

text \<open>The conditions under which \<open>register_user\<close> gets past its checks.\<close>

definition register_ok :: "db \<Rightarrow> string \<Rightarrow> string \<Rightarrow> string \<Rightarrow> bool" where
  "register_ok d name email password =
     (name \<noteq> [] \<and> py_strip name \<noteq> [] \<and> validate_email email
      \<and> fst (validate_password password)
      \<and> find (\<lambda>u. u_email u = py_strip (py_lower email)) (users d) = None)"

text \<open>
  The store turns the session row of this call down: the token decodes, and the commit
  raises or the drawn \<open>jti\<close> is already in the table.
\<close>

definition session_store_fails :: "env \<Rightarrow> db \<Rightarrow> bool" where
  "session_store_fails e d =
     (\<not> token_decode_raises e
      \<and> (session_commit_raises e \<or> access_jti e \<in> session_token ` set (user_sessions d)))"

text \<open>The additional claims of the access token issued at login.\<close>

definition login_claims :: "user \<Rightarrow> (string \<times> string) list" where
  "login_claims usr =
     [(''user_type'', ''regular''), (''email'', u_email usr),
      (''preferred_language'', u_preferred_language usr)]"

text \<open>
  What a successful call leaves in the session table for its token: nothing new when
  decoding the token raised, otherwise exactly one row for the token, appended at the end.
\<close>

definition session_outcome :: "env \<Rightarrow> db \<Rightarrow> db \<Rightarrow> jwt \<Rightarrow> bool" where
  "session_outcome e d d' tok =
     (if token_decode_raises e
      then user_sessions d' = user_sessions d
      else length (filter (\<lambda>s. session_token s = jwt_jti tok) (user_sessions d')) = 1
           \<and> (\<exists>row. user_sessions d' = user_sessions d @ [row]
                 \<and> session_token row = jwt_jti tok \<and> s_user_id row = jwt_sub tok
                 \<and> s_is_active row
                 \<and> expires_at row = jwt_exp tok * 1000000 + utc_offset e))"

section \<open>Facts about the matcher\<close>

lemma rmatch_Zero: "\<not> rmatch Zero s"
  by (induction s) simp_all

lemma rmatch_One: "rmatch One s = (s = [])"
  by (cases s) (simp_all add: rmatch_Zero)

lemma rmatch_Atom: "rmatch (Atom P) s = (\<exists>c. s = [c] \<and> P c)"
  by (cases s) (simp_all add: rmatch_One rmatch_Zero)

lemma re_search_Atom: "re_search (Atom P) s = (\<exists>c \<in> set s. P c)"
proof -
  have "re_search (Atom P) s = (\<exists>t c. suffix t s \<and> prefix [c] t \<and> P c)"
    unfolding re_search_def list_ex_iff rmatch_Atom Bex_def in_set_suffixes in_set_prefixes
    by blast
  also have "\<dots> = (\<exists>c \<in> set s. P c)"
  proof
    assume "\<exists>t c. suffix t s \<and> prefix [c] t \<and> P c"
    then obtain t c where t: "suffix t s" "prefix [c] t" "P c" by blast
    from t(2) have "c \<in> set t" by (auto simp: prefix_def)
    with t(1) have "c \<in> set s" by (auto simp: suffix_def)
    with t(3) show "\<exists>c \<in> set s. P c" by blast
  next
    assume "\<exists>c \<in> set s. P c"
    then obtain c where c: "c \<in> set s" "P c" by blast
    then obtain ys zs where "s = ys @ c # zs" by (auto simp: in_set_conv_decomp)
    then have "suffix (c # zs) s" "prefix [c] (c # zs)" by (auto simp: suffix_def)
    with c(2) show "\<exists>t c. suffix t s \<and> prefix [c] t \<and> P c" by blast
  qed
  finally show ?thesis .
qed

lemma msgs_distinct:
  "distinct [msg_min_length, msg_uppercase, msg_lowercase, msg_number, msg_special]"
  by (simp add: msg_min_length_def msg_uppercase_def msg_lowercase_def msg_number_def
      msg_special_def)

lemma validate_password_errors:
  "snd (validate_password p) =
     (if length p < 8 then [msg_min_length] else []) @
     (if \<exists>c \<in> set p. cls_upper c then [] else [msg_uppercase]) @
     (if \<exists>c \<in> set p. cls_lower c then [] else [msg_lowercase]) @
     (if \<exists>c \<in> set p. cls_digit c then [] else [msg_number]) @
     (if \<exists>c \<in> set p. cls_special c then [] else [msg_special])"
  by (simp add: validate_password_def the_password_requirements_def re_search_Atom Let_def)

lemma validate_password_fst:
  "fst (validate_password p) = (snd (validate_password p) = [])"
  by (simp add: validate_password_def Let_def)

lemma validate_password_empty_iff:
  "(snd (validate_password p) = []) =
     (8 \<le> length p \<and> (\<exists>c \<in> set p. ch_range CHR ''A'' CHR ''Z'' c)
      \<and> (\<exists>c \<in> set p. ch_range CHR ''a'' CHR ''z'' c)
      \<and> (\<exists>c \<in> set p. ch_range CHR ''0'' CHR ''9'' c)
      \<and> (\<exists>c \<in> set p. c \<in> set special_characters))"
  unfolding validate_password_errors cls_upper_def cls_lower_def cls_digit_def cls_special_def
  by (auto simp: not_less)

lemma validate_password_reasons:
  "(msg_min_length \<in> set (snd (validate_password p))) = (length p < 8)"
  "(msg_uppercase \<in> set (snd (validate_password p))) =
     (\<not> (\<exists>c \<in> set p. ch_range CHR ''A'' CHR ''Z'' c))"
  "(msg_lowercase \<in> set (snd (validate_password p))) =
     (\<not> (\<exists>c \<in> set p. ch_range CHR ''a'' CHR ''z'' c))"
  "(msg_number \<in> set (snd (validate_password p))) =
     (\<not> (\<exists>c \<in> set p. ch_range CHR ''0'' CHR ''9'' c))"
  "(msg_special \<in> set (snd (validate_password p))) =
     (\<not> (\<exists>c \<in> set p. c \<in> set special_characters))"
  unfolding validate_password_errors cls_upper_def cls_lower_def cls_digit_def cls_special_def
  using msgs_distinct by auto

lemma validate_password_order:
  "distinct (snd (validate_password p))"
  "subseq (snd (validate_password p))
     [msg_min_length, msg_uppercase, msg_lowercase, msg_number, msg_special]"
  unfolding validate_password_errors using msgs_distinct by auto

lemma valid_password_nonempty: "fst (validate_password p) \<Longrightarrow> p \<noteq> []"
  using validate_password_empty_iff [of p] validate_password_fst [of p] by auto

section \<open>Facts about normalising an email\<close>

lemma of_char_lt_256: "(of_char (c::char) :: nat) < 256"
  by (cases c) simp

lemma py_isspace_lower: "py_isspace (py_lower_char c) = py_isspace c"
  using of_char_lt_256 [of c]
  by (simp add: py_isspace_def py_lower_char_def Let_def)

lemma py_lower_char_idem: "py_lower_char (py_lower_char c) = py_lower_char c"
  using of_char_lt_256 [of c]
  by (simp add: py_lower_char_def Let_def)

lemma py_lower_idem: "py_lower (py_lower s) = py_lower s"
  by (simp add: py_lower_def py_lower_char_idem)

lemma py_lower_strip: "py_lower (py_strip s) = py_strip (py_lower s)"
proof -
  have c: "py_isspace \<circ> py_lower_char = py_isspace"
    by (rule ext) (simp add: py_isspace_lower)
  show ?thesis
    by (simp add: py_lower_def py_strip_def rev_map dropWhile_map c)
qed

lemma dropWhile_rev_dropWhile:
  "dropWhile P (rev (dropWhile P (rev (dropWhile P s)))) = rev (dropWhile P (rev (dropWhile P s)))"
proof (cases "rev (dropWhile P (rev (dropWhile P s)))")
  case Nil
  show ?thesis unfolding Nil by simp
next
  case (Cons a as)
  define t where "t = dropWhile P s"
  have "\<exists>zs. t = rev (dropWhile P (rev t)) @ zs"
    by (metis append_take_drop_id dropWhile_eq_drop rev_append rev_rev_ident)
  then obtain zs where zs: "t = (a # as) @ zs" using Cons by (auto simp: t_def)
  then have "t \<noteq> []" "hd t = a" by auto
  then have "\<not> P a" unfolding t_def by (metis hd_dropWhile)
  then show ?thesis unfolding Cons by simp
qed

lemma py_strip_idem: "py_strip (py_strip s) = py_strip s"
  by (simp add: py_strip_def dropWhile_rev_dropWhile)

lemma normalize_idem:
  "py_strip (py_lower (py_strip (py_lower s))) = py_strip (py_lower s)"
  by (simp add: py_lower_strip py_lower_idem py_strip_idem)

section \<open>Facts about the store\<close>

lemma map_key_update_first:
  "(\<And>x. k (f x) = k x) \<Longrightarrow> map k (update_first P f xs) = map k xs"
  by (induction xs) auto

lemma map_key_update_all:
  "(\<And>x. k (f x) = k x) \<Longrightarrow> map k (update_all P f xs) = map k xs"
  by (simp add: update_all_def)

lemma set_update_first:
  "y \<in> set (update_first P f xs) \<Longrightarrow> y \<in> set xs \<or> (\<exists>x \<in> set xs. P x \<and> y = f x)"
  by (induction xs) (auto split: if_splits)

lemma update_first_no_match: "find P xs = None \<Longrightarrow> update_first P f xs = xs"
  by (induction xs) (auto split: if_splits)

lemma find_by_key_unique:
  "distinct (map k xs) \<Longrightarrow> x \<in> set xs \<Longrightarrow> find (\<lambda>y. k y = k x) xs = Some x"
  by (induction xs) (auto simp: image_iff)

lemma find_Some_mem: "find P xs = Some x \<Longrightarrow> x \<in> set xs \<and> P x"
  by (induction xs) (auto split: if_splits)

lemma find_key_update_first:
  "distinct (map k xs) \<Longrightarrow> find P xs = Some x \<Longrightarrow> k (f x) = k x \<Longrightarrow>
   find (\<lambda>y. k y = k x) (update_first P f xs) = Some (f x)"
proof (induction xs)
  case Nil
  then show ?case by simp
next
  case (Cons a xs)
  show ?case
  proof (cases "P a")
    case True
    with Cons.prems show ?thesis by simp
  next
    case False
    with Cons.prems have fx: "find P xs = Some x" by simp
    then have "x \<in> set xs" by (simp add: find_Some_mem)
    with Cons.prems(1) have "k a \<noteq> k x" by (auto simp: image_iff)
    with False Cons.IH fx Cons.prems show ?thesis by simp
  qed
qed



lemma find_active_unique:
  assumes "unique_tokens d" "find (\<lambda>s. session_token s = t \<and> s_is_active s) (user_sessions d) = Some s"
    "x \<in> set (user_sessions d)" "session_token x = t"
  shows "x = s"
proof -
  from find_Some_mem [OF assms(2)] have s: "s \<in> set (user_sessions d)" "session_token s = t"
    by simp_all
  from assms(1) have "inj_on session_token (set (user_sessions d))"
    by (simp add: unique_tokens_def distinct_map)
  with s assms(3,4) show ?thesis by (simp add: inj_on_def)
qed

lemma is_session_valid_true_iff:
  assumes "unique_tokens d"
  shows "fst (is_session_valid e d t) =
     (\<exists>s \<in> set (user_sessions d). session_token s = t \<and> s_is_active s \<and> utcnow e \<le> expires_at s)"
proof (cases "find (\<lambda>s. session_token s = t \<and> s_is_active s) (user_sessions d)")
  case None
  then have "\<not> (\<exists>s \<in> set (user_sessions d). session_token s = t \<and> s_is_active s)"
    by (simp add: find_None_iff)
  moreover from None have "fst (is_session_valid e d t) = False"
    by (simp add: is_session_valid_def)
  ultimately show ?thesis by blast
next
  case (Some s)
  from find_Some_mem [OF Some] have s: "s \<in> set (user_sessions d)" "session_token s = t" "s_is_active s"
    by simp_all
  have only: "x = s" if "x \<in> set (user_sessions d)" "session_token x = t" for x
    using find_active_unique [OF assms Some that] .
  from Some have "fst (is_session_valid e d t) = (utcnow e \<le> expires_at s)"
    by (simp add: is_session_valid_def is_expired_def not_less)
  also have "\<dots> = (\<exists>s \<in> set (user_sessions d). session_token s = t \<and> s_is_active s \<and> utcnow e \<le> expires_at s)"
    using s only by blast
  finally show ?thesis .
qed


lemma is_session_valid_touch:
  assumes "unique_tokens d" "fst (is_session_valid e d t)"
  shows "\<exists>s. find (\<lambda>x. session_token x = t) (user_sessions d) = Some s
           \<and> find (\<lambda>x. session_token x = t) (user_sessions (snd (is_session_valid e d t)))
               = Some (s\<lparr>last_activity := utcnow e\<rparr>)
           \<and> users (snd (is_session_valid e d t)) = users d"
proof (cases "find (\<lambda>s. session_token s = t \<and> s_is_active s) (user_sessions d)")
  case None
  then have "fst (is_session_valid e d t) = False" by (simp add: is_session_valid_def)
  with assms(2) show ?thesis by simp
next
  case (Some s)
  from find_Some_mem [OF Some] have s: "s \<in> set (user_sessions d)" "session_token s = t"
    by simp_all
  from assms(1) have dist: "distinct (map session_token (user_sessions d))"
    by (simp add: unique_tokens_def)
  have ne: "\<not> is_expired (utcnow e) s"
  proof
    assume "is_expired (utcnow e) s"
    with Some have "fst (is_session_valid e d t) = False" by (simp add: is_session_valid_def)
    with assms(2) show False by simp
  qed
  with Some have post: "snd (is_session_valid e d t) =
      d\<lparr>user_sessions := update_first (\<lambda>s. session_token s = t \<and> s_is_active s)
           (update_activity (utcnow e)) (user_sessions d)\<rparr>"
    by (simp add: is_session_valid_def)
  have "find (\<lambda>y. session_token y = session_token s) (user_sessions d) = Some s"
    using find_by_key_unique [OF dist s(1)] .
  moreover have "find (\<lambda>y. session_token y = session_token s)
      (update_first (\<lambda>s. session_token s = t \<and> s_is_active s)
           (update_activity (utcnow e)) (user_sessions d)) = Some (update_activity (utcnow e) s)"
    by (rule find_key_update_first [OF dist Some]) (simp add: update_activity_def)
  ultimately show ?thesis
    using s(2) post by (simp add: update_activity_def)
qed

lemma is_session_valid_expired:
  assumes "unique_tokens d" "s \<in> set (user_sessions d)" "s_is_active s"
    "expires_at s < utcnow e"
  shows "is_session_valid e d (session_token s) =
     (False, d\<lparr>user_sessions :=
        update_first (\<lambda>x. session_token x = session_token s \<and> s_is_active x) revoke
          (user_sessions d)\<rparr>)"
    and "find (\<lambda>x. session_token x = session_token s \<and> s_is_active x) (user_sessions d) = Some s"
proof -
  obtain s' where f: "find (\<lambda>x. session_token x = session_token s \<and> s_is_active x)
      (user_sessions d) = Some s'"
    using assms(2,3) by (cases "find (\<lambda>x. session_token x = session_token s \<and> s_is_active x)
      (user_sessions d)") (auto simp: find_None_iff)
  have "s = s'" using find_active_unique [OF assms(1) f assms(2)] by simp
  with f show f': "find (\<lambda>x. session_token x = session_token s \<and> s_is_active x)
      (user_sessions d) = Some s" by simp
  from assms(4) have "is_expired (utcnow e) s" by (simp add: is_expired_def)
  with f' show "is_session_valid e d (session_token s) =
     (False, d\<lparr>user_sessions :=
        update_first (\<lambda>x. session_token x = session_token s \<and> s_is_active x) revoke
          (user_sessions d)\<rparr>)"
    by (simp add: is_session_valid_def)
qed

lemma is_session_valid_inactive:
  assumes "unique_tokens d" "find (\<lambda>x. session_token x = t) (user_sessions d) = Some s"
    "\<not> s_is_active s"
  shows "is_session_valid e d t = (False, d)"
proof -
  have "find (\<lambda>x. session_token x = t \<and> s_is_active x) (user_sessions d) = None"
  proof (rule ccontr)
    assume "find (\<lambda>x. session_token x = t \<and> s_is_active x) (user_sessions d) \<noteq> None"
    then obtain s' where f: "find (\<lambda>x. session_token x = t \<and> s_is_active x)
      (user_sessions d) = Some s'" by blast
    from find_Some_mem [OF assms(2)] have "s \<in> set (user_sessions d)" "session_token s = t"
      by simp_all
    from find_active_unique [OF assms(1) f this] find_Some_mem [OF f] assms(3)
    show False by simp
  qed
  then show ?thesis by (simp add: is_session_valid_def)
qed

lemma find_by_id: "find (\<lambda>u. u_id u = uid) us = Some u \<Longrightarrow> u_id u = uid"
  using find_Some_mem [of "\<lambda>u. u_id u = uid" us u] by simp

lemma same_token_same_row:
  "distinct (map session_token ss) \<Longrightarrow> x \<in> set ss \<Longrightarrow> y \<in> set ss \<Longrightarrow>
   session_token x = session_token y \<Longrightarrow> x = y"
  by (simp add: distinct_map inj_on_def)

lemma keeps_revoked_refl: "distinct (map session_token ss) \<Longrightarrow> keeps_revoked ss ss"
  unfolding keeps_revoked_def using same_token_same_row by blast

lemma keeps_revoked_update_first:
  assumes "distinct (map session_token ss)"
    and "\<And>x. session_token (f x) = session_token x"
    and "\<And>x. s_is_active (f x) \<Longrightarrow> s_is_active x"
  shows "keeps_revoked ss (update_first P f ss)"
  unfolding keeps_revoked_def
proof (intro ballI impI)
  fix s s'
  assume s: "s \<in> set ss" "\<not> s_is_active s"
    and s': "s' \<in> set (update_first P f ss)" "session_token s' = session_token s"
  from set_update_first [OF s'(1)] show "\<not> s_is_active s'"
  proof
    assume "s' \<in> set ss"
    with assms(1) s s'(2) show ?thesis using same_token_same_row by blast
  next
    assume "\<exists>x \<in> set ss. P x \<and> s' = f x"
    then obtain x where x: "x \<in> set ss" "s' = f x" by blast
    with s'(2) assms(2) have "session_token x = session_token s" by simp
    with assms(1) x(1) s(1) have "x = s" using same_token_same_row by blast
    with x(2) s(2) assms(3) show ?thesis by blast
  qed
qed

lemma keeps_revoked_update_all:
  assumes "distinct (map session_token ss)"
    and "\<And>x. session_token (f x) = session_token x"
    and "\<And>x. s_is_active (f x) \<Longrightarrow> s_is_active x"
  shows "keeps_revoked ss (update_all P f ss)"
  unfolding keeps_revoked_def
proof (intro ballI impI)
  fix s s'
  assume s: "s \<in> set ss" "\<not> s_is_active s"
    and s': "s' \<in> set (update_all P f ss)" "session_token s' = session_token s"
  from s'(1) obtain x where x: "x \<in> set ss" "s' = x \<or> s' = f x"
    by (auto simp: update_all_def split: if_splits)
  with s'(2) assms(2) have "session_token x = session_token s" by auto
  with assms(1) x(1) s(1) have "x = s" using same_token_same_row by blast
  with x(2) s(2) assms(3) show "\<not> s_is_active s'" by blast
qed

lemma keeps_revoked_append:
  assumes "distinct (map session_token ss)" "session_token row \<notin> session_token ` set ss"
  shows "keeps_revoked ss (ss @ [row])"
  unfolding keeps_revoked_def
proof (intro ballI impI)
  fix s s'
  assume s: "s \<in> set ss" "\<not> s_is_active s"
    and s': "s' \<in> set (ss @ [row])" "session_token s' = session_token s"
  from s'(1) have "s' \<in> set ss \<or> s' = row" by auto
  then show "\<not> s_is_active s'"
  proof
    assume "s' \<in> set ss"
    with assms(1) s s'(2) show ?thesis using same_token_same_row by blast
  next
    assume "s' = row"
    with s'(2) s(1) assms(2) show ?thesis by force
  qed
qed

lemma keeps_revoked_filter:
  assumes "distinct (map session_token ss)"
  shows "keeps_revoked ss (filter Q ss)"
  unfolding keeps_revoked_def using same_token_same_row [OF assms] by auto

lemma create_user_session_result:
  "snd (create_user_session e d uid tok ip ua) =
     (if token_decode_raises e \<or> session_commit_raises e
        \<or> jwt_jti tok \<in> session_token ` set (user_sessions d)
      then d
      else d\<lparr>user_sessions := user_sessions d @ [new_session_row e d uid tok ip ua]\<rparr>)"
proof -
  have eq: "list_ex (\<lambda>x. session_token x = jwt_jti tok) (user_sessions d) =
      (jwt_jti tok \<in> session_token ` set (user_sessions d))"
    unfolding list_ex_iff image_iff Bex_def by metis
  show ?thesis
    by (simp add: create_user_session_def add_session_def eq Let_def get_jti_def
        datetime_fromtimestamp_def new_session_row_def)
qed

lemma create_user_session_pending:
  "snd (fst (create_user_session e d uid tok ip ua)) =
     (\<not> token_decode_raises e
      \<and> (session_commit_raises e \<or> jwt_jti tok \<in> session_token ` set (user_sessions d)))"
proof -
  have eq: "list_ex (\<lambda>x. session_token x = jwt_jti tok) (user_sessions d) =
      (jwt_jti tok \<in> session_token ` set (user_sessions d))"
    unfolding list_ex_iff image_iff Bex_def by metis
  show ?thesis
    by (simp add: create_user_session_def add_session_def eq Let_def get_jti_def)
qed

lemma create_user_session_users:
  "users (snd (create_user_session e d uid tok ip ua)) = users d"
  by (simp add: create_user_session_result)

lemma create_user_session_keeps_revoked:
  assumes "distinct (map session_token (user_sessions d))"
  shows "keeps_revoked (user_sessions d) (user_sessions (snd (create_user_session e d uid tok ip ua)))"
proof (cases "token_decode_raises e \<or> session_commit_raises e
        \<or> jwt_jti tok \<in> session_token ` set (user_sessions d)")
  case True
  then show ?thesis using keeps_revoked_refl [OF assms] by (simp add: create_user_session_result)
next
  case False
  then have "session_token (new_session_row e d uid tok ip ua) \<notin> session_token ` set (user_sessions d)"
    by (simp add: new_session_row_def)
  from keeps_revoked_append [OF assms this] False show ?thesis
    by (simp add: create_user_session_result)
qed

lemma validate_email_nonempty: "validate_email email \<Longrightarrow> email \<noteq> []"
  by (auto simp: validate_email_def re_match_anchored_def email_pattern_def Plus_def)

lemma register_session_pending:
  "snd (fst (create_user_session e (d\<lparr>users := us\<rparr>) uid
      (create_access_token e uid' delta claims) ip ua)) = session_store_fails e d"
  by (simp add: create_user_session_pending session_store_fails_def create_access_token_def)

lemma register_user_past_checks:
  assumes "register_ok d name email password"
  shows "register_user B e d name email password lang kw =
     (if session_store_fails e d
      then
          (failure ''Registration failed'',
           snd (create_user_session e
            (d\<lparr>users := users d @ [new_user_row B e d name email password lang kw]\<rparr>)
            (fresh_id (map u_id (users d)))
            (create_access_token e (fresh_id (map u_id (users d))) (hours 1)
               [(''user_type'', ''regular''), (''email'', py_strip (py_lower email))])
            None None))
      else
          (\<lparr> success = True, message = Some ''User registered successfully'',
             resp_user = Some (to_dict (new_user_row B e d name email password lang kw)),
             access_token = Some (create_access_token e (fresh_id (map u_id (users d))) (hours 1)
                [(''user_type'', ''regular''), (''email'', py_strip (py_lower email))]),
             refresh_token = Some (create_refresh_token e (fresh_id (map u_id (users d)))
                (days 30)) \<rparr>,
           snd (create_user_session e
            (d\<lparr>users := users d @ [new_user_row B e d name email password lang kw]\<rparr>)
            (fresh_id (map u_id (users d)))
            (create_access_token e (fresh_id (map u_id (users d))) (hours 1)
               [(''user_type'', ''regular''), (''email'', py_strip (py_lower email))])
            None None)))"
proof -
  from assms have n: "name \<noteq> []" "py_strip name \<noteq> []"
    and v: "validate_email email" and p: "fst (validate_password password)"
    and f: "find (\<lambda>u. u_email u = py_strip (py_lower email)) (users d) = None"
    by (simp_all add: register_ok_def)
  from v have em: "email \<noteq> []" by (rule validate_email_nonempty)
  from p have pw: "password \<noteq> []" by (rule valid_password_nonempty)
  from f have nx: "\<not> list_ex (\<lambda>x. u_email x = py_strip (py_lower email)) (users d)"
    by (simp add: find_None_iff list_ex_iff)
  let ?u0 = "(User (py_strip name) (py_strip (py_lower email)) lang)
               \<lparr>u_password_hash := Some (hashpw B password (gensalt e))\<rparr>"
  let ?u1 = "case map_of kw ''phone'' of None \<Rightarrow> ?u0 | Some v \<Rightarrow> ?u0\<lparr>u_phone := v\<rparr>"
  let ?u2 = "case map_of kw ''bio'' of None \<Rightarrow> ?u1 | Some v \<Rightarrow> ?u1\<lparr>u_bio := v\<rparr>"
  have sp: "set_password B (gensalt e) (User (py_strip name) (py_strip (py_lower email)) lang)
      password = Inr ?u0"
    using pw by (simp add: set_password_def)
  have u2: "?u2\<lparr>u_id := fresh_id (map u_id (users d)), u_created_at := utcnow e\<rparr>
      = new_user_row B e d name email password lang kw"
    by (simp add: new_user_row_def User_def normalize_idem split: option.split)
  have em2: "u_email ?u2 = py_strip (py_lower email)"
    by (simp add: User_def normalize_idem split: option.split)
  have au: "add_user e d ?u2 = Inr (d\<lparr>users := users d @
      [new_user_row B e d name email password lang kw]\<rparr>,
      new_user_row B e d name email password lang kw)"
    unfolding add_user_def em2 using nx u2 by (simp add: Let_def)
  have id: "u_id (new_user_row B e d name email password lang kw) = fresh_id (map u_id (users d))"
    "u_email (new_user_row B e d name email password lang kw) = py_strip (py_lower email)"
    by (simp_all add: new_user_row_def)
  show ?thesis
    unfolding register_user_def
    using n v em p f
    by (simp add: Let_def sp au id register_session_pending to_dict_in_session_def)
qed

lemma register_user_ok:
  assumes "register_ok d name email password" "\<not> session_store_fails e d"
  shows "register_user B e d name email password lang kw =
     (\<lparr> success = True, message = Some ''User registered successfully'',
         resp_user = Some (to_dict (new_user_row B e d name email password lang kw)),
         access_token = Some (create_access_token e (fresh_id (map u_id (users d))) (hours 1)
            [(''user_type'', ''regular''), (''email'', py_strip (py_lower email))]),
         refresh_token = Some (create_refresh_token e (fresh_id (map u_id (users d))) (days 30)) \<rparr>,
      snd (create_user_session e
            (d\<lparr>users := users d @ [new_user_row B e d name email password lang kw]\<rparr>)
            (fresh_id (map u_id (users d)))
            (create_access_token e (fresh_id (map u_id (users d))) (hours 1)
               [(''user_type'', ''regular''), (''email'', py_strip (py_lower email))])
            None None))"
  unfolding register_user_past_checks [OF assms(1)] using assms(2) by simp

lemma register_user_store_failure:
  assumes "register_ok d name email password" "session_store_fails e d"
  shows "register_user B e d name email password lang kw =
     (failure ''Registration failed'',
      d\<lparr>users := users d @ [new_user_row B e d name email password lang kw]\<rparr>)"
proof -
  from assms(2) have "token_decode_raises e \<or> session_commit_raises e
      \<or> access_jti e \<in> session_token ` set (user_sessions d)"
    by (auto simp: session_store_fails_def)
  then have "snd (create_user_session e
            (d\<lparr>users := users d @ [new_user_row B e d name email password lang kw]\<rparr>)
            (fresh_id (map u_id (users d)))
            (create_access_token e (fresh_id (map u_id (users d))) (hours 1)
               [(''user_type'', ''regular''), (''email'', py_strip (py_lower email))])
            None None)
      = d\<lparr>users := users d @ [new_user_row B e d name email password lang kw]\<rparr>"
    by (simp add: create_user_session_result create_access_token_def)
  then show ?thesis
    unfolding register_user_past_checks [OF assms(1)] using assms(2) by simp
qed

lemma register_user_not_ok:
  assumes "\<not> register_ok d name email password"
  shows "snd (register_user B e d name email password lang kw) = d
     \<and> \<not> success (fst (register_user B e d name email password lang kw))"
proof (cases "name = [] \<or> py_strip name = []")
  case True
  then show ?thesis by (auto simp: register_user_def failure_def)
next
  case n: False
  show ?thesis
  proof (cases "email = [] \<or> \<not> validate_email email")
    case True
    with n show ?thesis by (auto simp: register_user_def failure_def)
  next
    case v: False
    show ?thesis
    proof (cases "fst (validate_password password)")
      case False
      with n v show ?thesis by (simp add: register_user_def failure_def Let_def)
    next
      case p: True
      with n v assms obtain x where
        "find (\<lambda>u. u_email u = py_strip (py_lower email)) (users d) = Some x"
        by (auto simp: register_ok_def)
      with n v p show ?thesis by (simp add: register_user_def failure_def Let_def)
    qed
  qed
qed

lemma authenticate_user_past_checks:
  assumes "email \<noteq> []" "password \<noteq> []"
    and "find (\<lambda>u. u_email u = py_strip (py_lower email) \<and> u_is_active u) (users d) = Some usr"
    and "check_password B usr password = Inr True"
  shows "authenticate_user B e d email password ip ua =
     (if session_store_fails e d
      then
          (failure ''Authentication failed'',
           snd (create_user_session e
            (d\<lparr>users := update_first (\<lambda>u. u_id u = u_id usr)
                   (\<lambda>u. u\<lparr>u_last_login_at := Some (utcnow e)\<rparr>) (users d)\<rparr>)
            (u_id usr)
            (create_access_token e (u_id usr) (hours 1) (login_claims usr)) ip ua))
      else
          (\<lparr> success = True, message = Some ''Login successful'',
             resp_user = Some (to_dict (usr\<lparr>u_last_login_at := Some (utcnow e)\<rparr>)),
             access_token = Some (create_access_token e (u_id usr) (hours 1) (login_claims usr)),
             refresh_token = Some (create_refresh_token e (u_id usr) (days 30)) \<rparr>,
           snd (create_user_session e
            (d\<lparr>users := update_first (\<lambda>u. u_id u = u_id usr)
                   (\<lambda>u. u\<lparr>u_last_login_at := Some (utcnow e)\<rparr>) (users d)\<rparr>)
            (u_id usr)
            (create_access_token e (u_id usr) (hours 1) (login_claims usr)) ip ua)))"
  using assms
  by (simp add: authenticate_user_def update_last_login_def is_premium_user_def
      login_claims_def Let_def register_session_pending to_dict_in_session_def)

lemma authenticate_user_ok:
  assumes "email \<noteq> []" "password \<noteq> []"
    and "find (\<lambda>u. u_email u = py_strip (py_lower email) \<and> u_is_active u) (users d) = Some usr"
    and "check_password B usr password = Inr True"
    and "\<not> session_store_fails e d"
  shows "authenticate_user B e d email password ip ua =
     (\<lparr> success = True, message = Some ''Login successful'',
         resp_user = Some (to_dict (usr\<lparr>u_last_login_at := Some (utcnow e)\<rparr>)),
         access_token = Some (create_access_token e (u_id usr) (hours 1) (login_claims usr)),
         refresh_token = Some (create_refresh_token e (u_id usr) (days 30)) \<rparr>,
      snd (create_user_session e
            (d\<lparr>users := update_first (\<lambda>u. u_id u = u_id usr)
                   (\<lambda>u. u\<lparr>u_last_login_at := Some (utcnow e)\<rparr>) (users d)\<rparr>)
            (u_id usr)
            (create_access_token e (u_id usr) (hours 1) (login_claims usr)) ip ua))"
  unfolding authenticate_user_past_checks [OF assms(1-4)] using assms(5) by simp

lemma authenticate_user_store_failure:
  assumes "email \<noteq> []" "password \<noteq> []"
    and "find (\<lambda>u. u_email u = py_strip (py_lower email) \<and> u_is_active u) (users d) = Some usr"
    and "check_password B usr password = Inr True"
    and "session_store_fails e d"
  shows "authenticate_user B e d email password ip ua =
     (failure ''Authentication failed'',
      d\<lparr>users := update_first (\<lambda>u. u_id u = u_id usr)
             (\<lambda>u. u\<lparr>u_last_login_at := Some (utcnow e)\<rparr>) (users d)\<rparr>)"
proof -
  from assms(5) have "token_decode_raises e \<or> session_commit_raises e
      \<or> access_jti e \<in> session_token ` set (user_sessions d)"
    by (auto simp: session_store_fails_def)
  then have "snd (create_user_session e
            (d\<lparr>users := update_first (\<lambda>u. u_id u = u_id usr)
                   (\<lambda>u. u\<lparr>u_last_login_at := Some (utcnow e)\<rparr>) (users d)\<rparr>)
            (u_id usr)
            (create_access_token e (u_id usr) (hours 1) (login_claims usr)) ip ua)
      = d\<lparr>users := update_first (\<lambda>u. u_id u = u_id usr)
             (\<lambda>u. u\<lparr>u_last_login_at := Some (utcnow e)\<rparr>) (users d)\<rparr>"
    by (simp add: create_user_session_result create_access_token_def)
  then show ?thesis
    unfolding authenticate_user_past_checks [OF assms(1-4)] using assms(5) by simp
qed

lemma authenticate_user_not_ok:
  assumes "\<not> (email \<noteq> [] \<and> password \<noteq> []
      \<and> (\<exists>usr. find (\<lambda>u. u_email u = py_strip (py_lower email) \<and> u_is_active u) (users d)
              = Some usr \<and> check_password B usr password = Inr True))"
  shows "snd (authenticate_user B e d email password ip ua) = d
     \<and> \<not> success (fst (authenticate_user B e d email password ip ua))"
proof (cases "email = [] \<or> password = []")
  case True
  then show ?thesis by (auto simp: authenticate_user_def failure_def)
next
  case ne: False
  show ?thesis
  proof (cases "find (\<lambda>u. u_email u = py_strip (py_lower email) \<and> u_is_active u) (users d)")
    case None
    with ne show ?thesis by (simp add: authenticate_user_def failure_def)
  next
    case (Some usr)
    with assms ne have c: "check_password B usr password \<noteq> Inr True" by simp
    show ?thesis
    proof (cases "check_password B usr password")
      case (Inl err)
      with ne Some show ?thesis by (simp add: authenticate_user_def failure_def)
    next
      case (Inr ok)
      with c have "\<not> ok" by simp
      with ne Some Inr show ?thesis by (simp add: authenticate_user_def failure_def)
    qed
  qed
qed

lemma run_sessions:
  "user_sessions (run B e op d) = user_sessions d
   \<or> (\<exists>d1 uid tok ip ua. user_sessions d1 = user_sessions d
        \<and> user_sessions (run B e op d) = user_sessions (snd (create_user_session e d1 uid tok ip ua)))
   \<or> (\<exists>P. user_sessions (run B e op d) = update_first P revoke (user_sessions d))
   \<or> (\<exists>P. user_sessions (run B e op d) = update_all P revoke (user_sessions d))
   \<or> (\<exists>P. user_sessions (run B e op d) = update_first P (update_activity (utcnow e)) (user_sessions d))
   \<or> (\<exists>P. user_sessions (run B e op d) = filter P (user_sessions d))"
proof (cases op)
  case (Register n em pw lang kw)
  show ?thesis
  proof (cases "register_ok d n em pw")
    case True
    have "user_sessions (d\<lparr>users := users d @ [new_user_row B e d n em pw lang kw]\<rparr>)
        = user_sessions d" by simp
    show ?thesis
    proof (cases "session_store_fails e d")
      case sf: True
      show ?thesis unfolding Register run.simps register_user_store_failure [OF True sf]
        by simp
    next
      case sf: False
      from \<open>user_sessions (d\<lparr>users := users d @ [new_user_row B e d n em pw lang kw]\<rparr>)
        = user_sessions d\<close>
      show ?thesis unfolding Register run.simps register_user_ok [OF True sf] snd_conv
        by blast
    qed
  next
    case False
    from register_user_not_ok [OF False] show ?thesis unfolding Register run.simps by simp
  qed
next
  case (Authenticate em pw ip ua)
  show ?thesis
  proof (cases "em \<noteq> [] \<and> pw \<noteq> []
      \<and> (\<exists>usr. find (\<lambda>u. u_email u = py_strip (py_lower em) \<and> u_is_active u) (users d)
              = Some usr \<and> check_password B usr pw = Inr True)")
    case True
    then obtain usr where u: "em \<noteq> []" "pw \<noteq> []"
      "find (\<lambda>u. u_email u = py_strip (py_lower em) \<and> u_is_active u) (users d) = Some usr"
      "check_password B usr pw = Inr True" by blast
    have "user_sessions (d\<lparr>users := update_first (\<lambda>u. u_id u = u_id usr)
                   (\<lambda>u. u\<lparr>u_last_login_at := Some (utcnow e)\<rparr>) (users d)\<rparr>)
        = user_sessions d" by simp
    show ?thesis
    proof (cases "session_store_fails e d")
      case sf: True
      show ?thesis
        unfolding Authenticate run.simps authenticate_user_store_failure [OF u sf] by simp
    next
      case sf: False
      from \<open>user_sessions (d\<lparr>users := update_first (\<lambda>u. u_id u = u_id usr)
                   (\<lambda>u. u\<lparr>u_last_login_at := Some (utcnow e)\<rparr>) (users d)\<rparr>)
        = user_sessions d\<close>
      show ?thesis
        unfolding Authenticate run.simps authenticate_user_ok [OF u sf] snd_conv by blast
    qed
  next
    case False
    from authenticate_user_not_ok [OF False] show ?thesis
      unfolding Authenticate run.simps by simp
  qed
next
  case (RefreshAccess uid)
  then show ?thesis
    by (simp add: refresh_access_token_def Let_def split: option.split)
next
  case (RevokeSession t)
  have "user_sessions (snd (revoke_user_session d t)) = user_sessions d
    \<or> user_sessions (snd (revoke_user_session d t))
        = update_first (\<lambda>s. session_token s = t) revoke (user_sessions d)"
    by (simp add: revoke_user_session_def split: option.split)
  then show ?thesis unfolding RevokeSession run.simps by blast
next
  case (RevokeAll uid)
  have "user_sessions (snd (revoke_all_user_sessions d uid))
        = update_all (\<lambda>s. s_user_id s = uid \<and> s_is_active s) revoke (user_sessions d)"
    by (simp add: revoke_all_user_sessions_def Let_def)
  then show ?thesis unfolding RevokeAll run.simps by blast
next
  case (ChangePassword uid cur new)
  have "user_sessions (snd (change_user_password B e d uid cur new)) = user_sessions d
    \<or> user_sessions (snd (change_user_password B e d uid cur new))
        = update_all (\<lambda>s. s_user_id s = uid \<and> s_is_active s) revoke (user_sessions d)"
    by (simp add: change_user_password_def revoke_all_user_sessions_def Let_def
        split: option.split sum.split)
  then show ?thesis unfolding ChangePassword run.simps by blast
next
  case (VerifyEmail uid t)
  then show ?thesis by (simp add: verify_user_email_def split: option.split)
next
  case (Deactivate uid)
  have "user_sessions (snd (deactivate_user_account d uid)) = user_sessions d
    \<or> user_sessions (snd (deactivate_user_account d uid))
        = update_all (\<lambda>s. s_user_id s = uid \<and> s_is_active s) revoke (user_sessions d)"
    by (simp add: deactivate_user_account_def revoke_all_user_sessions_def Let_def
        split: option.split)
  then show ?thesis unfolding Deactivate run.simps by blast
next
  case (DeleteAccount uid)
  have "user_sessions (snd (delete_user_account d uid)) = user_sessions d
    \<or> user_sessions (snd (delete_user_account d uid))
        = filter (\<lambda>s. s_user_id s \<noteq> uid) (user_sessions d)"
    by (simp add: delete_user_account_def split: option.split)
  then show ?thesis unfolding DeleteAccount run.simps by blast
next
  case (IsSessionValid t)
  have "user_sessions (snd (is_session_valid e d t)) = user_sessions d
    \<or> user_sessions (snd (is_session_valid e d t))
        = update_first (\<lambda>s. session_token s = t \<and> s_is_active s) revoke (user_sessions d)
    \<or> user_sessions (snd (is_session_valid e d t))
        = update_first (\<lambda>s. session_token s = t \<and> s_is_active s)
            (update_activity (utcnow e)) (user_sessions d)"
    by (simp add: is_session_valid_def split: option.split)
  then show ?thesis unfolding IsSessionValid run.simps by blast
next
  case (Logout t)
  have "user_sessions (snd (logout d t)) = user_sessions d
    \<or> user_sessions (snd (logout d t))
        = update_first (\<lambda>s. session_token s = t) revoke (user_sessions d)"
    by (simp add: logout_def revoke_user_session_def Let_def split: option.split)
  then show ?thesis unfolding Logout run.simps by blast
qed

lemma run_keeps_revoked:
  assumes "unique_tokens d"
  shows "keeps_revoked (user_sessions d) (user_sessions (run B e op d))"
proof -
  from assms have dist: "distinct (map session_token (user_sessions d))"
    by (simp add: unique_tokens_def)
  have rv: "\<And>x. session_token (revoke x) = session_token x"
    "\<And>x. s_is_active (revoke x) \<Longrightarrow> s_is_active x"
    by (simp_all add: revoke_def)
  have ua: "\<And>x. session_token (update_activity (utcnow e) x) = session_token x"
    "\<And>x. s_is_active (update_activity (utcnow e) x) \<Longrightarrow> s_is_active x"
    by (simp_all add: update_activity_def)
  from run_sessions [of B e op d] consider
      (same) "user_sessions (run B e op d) = user_sessions d"
    | (new) d1 uid tok ip ua where "user_sessions d1 = user_sessions d"
        "user_sessions (run B e op d) = user_sessions (snd (create_user_session e d1 uid tok ip ua))"
    | (rev1) P where "user_sessions (run B e op d) = update_first P revoke (user_sessions d)"
    | (revall) P where "user_sessions (run B e op d) = update_all P revoke (user_sessions d)"
    | (touch) P where "user_sessions (run B e op d)
          = update_first P (update_activity (utcnow e)) (user_sessions d)"
    | (del) P where "user_sessions (run B e op d) = filter P (user_sessions d)"
    by blast
  then show ?thesis
  proof cases
    case same
    then show ?thesis using keeps_revoked_refl [OF dist] by simp
  next
    case new
    from dist new(1) have "distinct (map session_token (user_sessions d1))" by simp
    from create_user_session_keeps_revoked [OF this, of e uid tok ip ua] new
    show ?thesis by simp
  next
    case rev1
    then show ?thesis using keeps_revoked_update_first [OF dist rv] by simp
  next
    case revall
    then show ?thesis using keeps_revoked_update_all [OF dist rv] by simp
  next
    case touch
    then show ?thesis using keeps_revoked_update_first [OF dist ua] by simp
  next
    case del
    then show ?thesis using keeps_revoked_filter [OF dist] by simp
  qed
qed

lemma run_unique_tokens:
  assumes "unique_tokens d"
  shows "unique_tokens (run B e op d)"
proof -
  from assms have dist: "distinct (map session_token (user_sessions d))"
    by (simp add: unique_tokens_def)
  from run_sessions [of B e op d] consider
      (same) "user_sessions (run B e op d) = user_sessions d"
    | (new) d1 uid tok ip ua where "user_sessions d1 = user_sessions d"
        "user_sessions (run B e op d) = user_sessions (snd (create_user_session e d1 uid tok ip ua))"
    | (rev1) P where "user_sessions (run B e op d) = update_first P revoke (user_sessions d)"
    | (revall) P where "user_sessions (run B e op d) = update_all P revoke (user_sessions d)"
    | (touch) P where "user_sessions (run B e op d)
          = update_first P (update_activity (utcnow e)) (user_sessions d)"
    | (del) P where "user_sessions (run B e op d) = filter P (user_sessions d)"
    by blast
  then have "distinct (map session_token (user_sessions (run B e op d)))"
  proof cases
    case same
    with dist show ?thesis by simp
  next
    case new
    with dist show ?thesis
      by (simp add: create_user_session_result new_session_row_def)
  next
    case rev1
    with dist show ?thesis by (simp add: map_key_update_first revoke_def)
  next
    case revall
    with dist show ?thesis by (simp add: map_key_update_all revoke_def)
  next
    case touch
    with dist show ?thesis by (simp add: map_key_update_first update_activity_def)
  next
    case del
    with dist show ?thesis by (simp add: distinct_map_filter)
  qed
  then show ?thesis by (simp add: unique_tokens_def)
qed

lemma update_first_idem:
  "(\<And>x. P x \<Longrightarrow> P (f x) \<and> f (f x) = f x) \<Longrightarrow>
   update_first P f (update_first P f xs) = update_first P f xs"
  by (induction xs) auto

lemma update_first_mem: "find P xs = Some x \<Longrightarrow> f x \<in> set (update_first P f xs)"
  by (induction xs) (auto split: if_splits)

lemma revoke_user_session_result:
  "revoke_user_session d t =
     (t \<in> session_token ` set (user_sessions d),
      d\<lparr>user_sessions := update_first (\<lambda>s. session_token s = t) revoke (user_sessions d)\<rparr>)"
proof (cases "find (\<lambda>s. session_token s = t) (user_sessions d)")
  case None
  then have "t \<notin> session_token ` set (user_sessions d)"
    unfolding find_None_iff image_iff Bex_def by metis
  with None show ?thesis
    by (simp add: revoke_user_session_def update_first_no_match)
next
  case (Some s)
  from find_Some_mem [OF Some] have "t \<in> session_token ` set (user_sessions d)" by force
  with Some show ?thesis by (simp add: revoke_user_session_def)
qed

lemma revoked_after_update_first:
  assumes "distinct (map session_token ss)"
    and "y \<in> set (update_first (\<lambda>s. session_token s = t) revoke ss)" "session_token y = t"
  shows "\<not> s_is_active y"
proof -
  from set_update_first [OF assms(2)] have "\<exists>x \<in> set ss. session_token x = t"
    using assms(3) by (auto simp: revoke_def)
  then obtain x where "find (\<lambda>s. session_token s = t) ss = Some x"
    by (cases "find (\<lambda>s. session_token s = t) ss") (auto simp: find_None_iff)
  from update_first_mem [OF this, of revoke]
  have m: "revoke x \<in> set (update_first (\<lambda>s. session_token s = t) revoke ss)" .
  from find_Some_mem [OF \<open>find (\<lambda>s. session_token s = t) ss = Some x\<close>]
  have tx: "session_token (revoke x) = t" by (simp add: revoke_def)
  have "distinct (map session_token (update_first (\<lambda>s. session_token s = t) revoke ss))"
    using assms(1) by (simp add: map_key_update_first revoke_def)
  from same_token_same_row [OF this assms(2) m] assms(3) tx have "y = revoke x" by simp
  then show ?thesis by (simp add: revoke_def)
qed

lemma find_update_first_same:
  "find P xs = Some x \<Longrightarrow> P (f x) \<Longrightarrow> find P (update_first P f xs) = Some (f x)"
  by (induction xs) (auto split: if_splits)

lemma set_update_all:
  "y \<in> set (update_all P f xs) \<Longrightarrow> (y \<in> set xs \<and> \<not> P y) \<or> (\<exists>x \<in> set xs. P x \<and> y = f x)"
  by (auto simp: update_all_def split: if_splits)

lemma change_user_password_ok:
  assumes "find (\<lambda>u. u_id u = uid) (users d) = Some usr"
    and "check_password B usr cur = Inr True"
    and "fst (validate_password new)"
  shows "change_user_password B e d uid cur new =
     (succeeded ''Password changed successfully'',
      \<lparr> users = update_first (\<lambda>u. u_id u = uid)
                  (\<lambda>u. u\<lparr>u_password_hash := Some (hashpw B new (gensalt e))\<rparr>) (users d),
        user_sessions = update_all (\<lambda>s. s_user_id s = uid \<and> s_is_active s) revoke
                  (user_sessions d) \<rparr>)"
proof -
  from assms(3) have "new \<noteq> []" by (rule valid_password_nonempty)
  then have sp: "set_password B (gensalt e) usr new
      = Inr (usr\<lparr>u_password_hash := Some (hashpw B new (gensalt e))\<rparr>)"
    by (simp add: set_password_def)
  show ?thesis
    using assms
    by (simp add: change_user_password_def sp revoke_all_user_sessions_def Let_def)
qed

lemma create_user_session_not_inserted:
  assumes "token_decode_raises e \<or> session_commit_raises e
    \<or> jwt_jti tok \<in> session_token ` set (user_sessions d)"
  shows "snd (create_user_session e d uid tok ip ua) = d"
  using assms by (simp add: create_user_session_result)

lemma create_user_session_inserted:
  assumes "\<not> token_decode_raises e" "\<not> session_commit_raises e"
    "jwt_jti tok \<notin> session_token ` set (user_sessions d)"
  shows "user_sessions (snd (create_user_session e d uid tok ip ua))
           = user_sessions d @ [new_session_row e d uid tok ip ua]"
    and "length (filter (\<lambda>s. session_token s = jwt_jti tok)
           (user_sessions (snd (create_user_session e d uid tok ip ua)))) = 1"
proof -
  show a: "user_sessions (snd (create_user_session e d uid tok ip ua))
           = user_sessions d @ [new_session_row e d uid tok ip ua]"
    using assms by (simp add: create_user_session_result)
  from assms(3) have "filter (\<lambda>s. session_token s = jwt_jti tok) (user_sessions d) = []"
    unfolding filter_empty_conv image_iff Bex_def by metis
  then show "length (filter (\<lambda>s. session_token s = jwt_jti tok)
           (user_sessions (snd (create_user_session e d uid tok ip ua)))) = 1"
    unfolding a by (simp add: new_session_row_def)
qed

lemma create_user_session_outcome:
  assumes "user_sessions d1 = user_sessions d" "jwt_sub tok = uid"
    and "jwt_jti tok = access_jti e" "\<not> session_store_fails e d"
  shows "session_outcome e d (snd (create_user_session e d1 uid tok ip ua)) tok"
proof (cases "token_decode_raises e")
  case True
  then have "snd (create_user_session e d1 uid tok ip ua) = d1"
    by (intro create_user_session_not_inserted) simp
  with True assms(1) show ?thesis by (simp add: session_outcome_def)
next
  case False
  with assms(1,3,4) have c: "\<not> token_decode_raises e" "\<not> session_commit_raises e"
    "jwt_jti tok \<notin> session_token ` set (user_sessions d1)"
    by (simp_all add: session_store_fails_def)
  note ins = create_user_session_inserted [OF c, of uid ip ua]
  have row: "session_token (new_session_row e d1 uid tok ip ua) = jwt_jti tok"
    "s_user_id (new_session_row e d1 uid tok ip ua) = jwt_sub tok"
    "s_is_active (new_session_row e d1 uid tok ip ua)"
    "expires_at (new_session_row e d1 uid tok ip ua) = jwt_exp tok * 1000000 + utc_offset e"
    using assms(2) by (simp_all add: new_session_row_def)
  have "\<exists>row. user_sessions (snd (create_user_session e d1 uid tok ip ua))
                 = user_sessions d @ [row]
          \<and> session_token row = jwt_jti tok \<and> s_user_id row = jwt_sub tok
          \<and> s_is_active row \<and> expires_at row = jwt_exp tok * 1000000 + utc_offset e"
    using ins(1) row assms(1) by metis
  with ins(2) False show ?thesis unfolding session_outcome_def by presburger
qed

lemma register_user_outcome:
  assumes "success (fst (register_user B e d n em pw lang kw))"
  shows "\<exists>tok. access_token (fst (register_user B e d n em pw lang kw)) = Some tok
     \<and> jwt_jti tok = access_jti e
     \<and> session_outcome e d (snd (register_user B e d n em pw lang kw)) tok"
proof (cases "register_ok d n em pw")
  case True
  have sf: "\<not> session_store_fails e d"
  proof
    assume "session_store_fails e d"
    from register_user_store_failure [OF True this, of B lang kw] assms show False
      by (simp add: failure_def)
  qed
  let ?tok = "create_access_token e (fresh_id (map u_id (users d))) (hours 1)
            [(''user_type'', ''regular''), (''email'', py_strip (py_lower em))]"
  have j: "jwt_jti ?tok = access_jti e" by (simp add: create_access_token_def)
  have "session_outcome e d (snd (create_user_session e
            (d\<lparr>users := users d @ [new_user_row B e d n em pw lang kw]\<rparr>)
            (fresh_id (map u_id (users d))) ?tok None None)) ?tok"
    by (rule create_user_session_outcome [OF _ _ j sf]) (simp_all add: create_access_token_def)
  with j show ?thesis unfolding register_user_ok [OF True sf] by simp
next
  case False
  from register_user_not_ok [OF False] assms show ?thesis by simp
qed

lemma authenticate_user_outcome:
  assumes "success (fst (authenticate_user B e d em pw ip ua))"
  shows "\<exists>tok. access_token (fst (authenticate_user B e d em pw ip ua)) = Some tok
     \<and> jwt_jti tok = access_jti e
     \<and> session_outcome e d (snd (authenticate_user B e d em pw ip ua)) tok"
proof (cases "em \<noteq> [] \<and> pw \<noteq> []
      \<and> (\<exists>usr. find (\<lambda>u. u_email u = py_strip (py_lower em) \<and> u_is_active u) (users d)
              = Some usr \<and> check_password B usr pw = Inr True)")
  case True
  then obtain usr where u: "em \<noteq> []" "pw \<noteq> []"
      "find (\<lambda>u. u_email u = py_strip (py_lower em) \<and> u_is_active u) (users d) = Some usr"
      "check_password B usr pw = Inr True" by blast
  have sf: "\<not> session_store_fails e d"
  proof
    assume "session_store_fails e d"
    from authenticate_user_store_failure [OF u this, of ip ua] assms show False
      by (simp add: failure_def)
  qed
  let ?tok = "create_access_token e (u_id usr) (hours 1) (login_claims usr)"
  have j: "jwt_jti ?tok = access_jti e" by (simp add: create_access_token_def)
  have "session_outcome e d (snd (create_user_session e
            (d\<lparr>users := update_first (\<lambda>u. u_id u = u_id usr)
                   (\<lambda>u. u\<lparr>u_last_login_at := Some (utcnow e)\<rparr>) (users d)\<rparr>)
            (u_id usr) ?tok ip ua)) ?tok"
    by (rule create_user_session_outcome [OF _ _ j sf]) (simp_all add: create_access_token_def)
  with j show ?thesis unfolding authenticate_user_ok [OF u sf] by simp
next
  case False
  from authenticate_user_not_ok [OF False] assms show ?thesis by simp
qed

lemma no_store_failure_env0: "\<not> session_store_fails env0 empty_db"
  "\<not> session_store_fails env_fail empty_db"
  by (simp_all add: session_store_fails_def env0_def env_fail_def empty_db_def)

lemma ann_register_ok: "register_ok empty_db ''Ann'' ''ann@example.com'' ''Str0ng!Pass''"
proof -
  have "py_strip ''Ann'' \<noteq> []" "validate_email ''ann@example.com''"
    "fst (validate_password ''Str0ng!Pass'')"
    by code_simp+
  then show ?thesis by (simp add: register_ok_def empty_db_def)
qed

lemma register_user_invalid_email:
  assumes "name \<noteq> []" "py_strip name \<noteq> []" "\<not> validate_email email"
  shows "register_user B e d name email password lang kw = (failure ''Valid email is required'', d)"
  using assms by (simp add: register_user_def)

lemma register_user_duplicate:
  assumes "name \<noteq> []" "py_strip name \<noteq> []" "validate_email email"
    "fst (validate_password password)"
    "find (\<lambda>u. u_email u = py_strip (py_lower email)) (users d) = Some x"
  shows "register_user B e d name email password lang kw = (failure ''Email already registered'', d)"
  using assms validate_email_nonempty [OF assms(3)] by (simp add: register_user_def Let_def)

lemma find_append_last:
  "find P xs = None \<Longrightarrow> P y \<Longrightarrow> find P (xs @ [y]) = Some y"
  by (induction xs) (auto split: if_splits)

section \<open>The claims\<close>

subsection \<open>C1: token issuance and the session record\<close>

text \<open>
  C1 (as the code has it). A successful \<open>register_user\<close> or \<open>authenticate_user\<close>
  returns an access token whose \<open>jti\<close> is the one drawn for this call. Unless decoding
  the token raised inside \<open>create_user_session\<close>, exactly one session row carries that
  \<open>jti\<close>: the row this call appended, for the token's user, active, expiring at the
  token's expiry. If decoding raised, \<open>create_user_session\<close> swallowed the exception: the
  call still reports success with the token and the session table is as it was.
\<close>

theorem session_created_unless_decode_fails:
  "(success (fst (register_user B e d n em pw lang kw)) \<longrightarrow>
      (\<exists>tok. access_token (fst (register_user B e d n em pw lang kw)) = Some tok
         \<and> jwt_jti tok = access_jti e
         \<and> (if token_decode_raises e
             then user_sessions (snd (register_user B e d n em pw lang kw)) = user_sessions d
             else length (filter (\<lambda>s. session_token s = jwt_jti tok)
                     (user_sessions (snd (register_user B e d n em pw lang kw)))) = 1
                  \<and> (\<exists>row. user_sessions (snd (register_user B e d n em pw lang kw))
                               = user_sessions d @ [row]
                        \<and> session_token row = jwt_jti tok \<and> s_user_id row = jwt_sub tok
                        \<and> s_is_active row
                        \<and> expires_at row = jwt_exp tok * 1000000 + utc_offset e))))
   \<and> (success (fst (authenticate_user B e d em' pw' ip ua)) \<longrightarrow>
      (\<exists>tok. access_token (fst (authenticate_user B e d em' pw' ip ua)) = Some tok
         \<and> jwt_jti tok = access_jti e
         \<and> (if token_decode_raises e
             then user_sessions (snd (authenticate_user B e d em' pw' ip ua)) = user_sessions d
             else length (filter (\<lambda>s. session_token s = jwt_jti tok)
                     (user_sessions (snd (authenticate_user B e d em' pw' ip ua)))) = 1
                  \<and> (\<exists>row. user_sessions (snd (authenticate_user B e d em' pw' ip ua))
                               = user_sessions d @ [row]
                        \<and> session_token row = jwt_jti tok \<and> s_user_id row = jwt_sub tok
                        \<and> s_is_active row
                        \<and> expires_at row = jwt_exp tok * 1000000 + utc_offset e))))"
  using register_user_outcome [of B e d n em pw lang kw]
    authenticate_user_outcome [of B e d em' pw' ip ua]
  unfolding session_outcome_def by blast

theorem session_created_unless_decode_fails_witness:
  "success (fst (register_user bcrypt_sim env0 empty_db ''Ann'' ''ann@example.com''
       ''Str0ng!Pass'' ''en'' []))
   \<and> length (filter (\<lambda>s. session_token s = ''jti-a'')
        (user_sessions (snd (register_user bcrypt_sim env0 empty_db ''Ann'' ''ann@example.com''
           ''Str0ng!Pass'' ''en'' [])))) = 1"
proof -
  have s: "success (fst (register_user bcrypt_sim env0 empty_db ''Ann'' ''ann@example.com''
       ''Str0ng!Pass'' ''en'' []))"
    by (simp add: register_user_ok [OF ann_register_ok no_store_failure_env0(1)])
  have c: "\<not> token_decode_raises env0" "access_jti env0 = ''jti-a''"
    by (simp_all add: env0_def)
  note E = mp [OF conjunct1 [OF session_created_unless_decode_fails
    [of bcrypt_sim env0 empty_db "''Ann''" "''ann@example.com''" "''Str0ng!Pass''" "''en''" "[]"]] s]
  from E c s show ?thesis by clarsimp
qed

text \<open>
  C1 as stated rules out a success whose token has no session row. When decoding the
  token raises inside \<open>create_user_session\<close>, registration succeeds, hands out an access
  token, and the session table stays empty.
\<close>

theorem token_without_session_counterexample:
  "success (fst (register_user bcrypt_sim env_fail empty_db ''Ann'' ''ann@example.com''
       ''Str0ng!Pass'' ''en'' []))
   \<and> access_token (fst (register_user bcrypt_sim env_fail empty_db ''Ann'' ''ann@example.com''
       ''Str0ng!Pass'' ''en'' [])) \<noteq> None
   \<and> user_sessions (snd (register_user bcrypt_sim env_fail empty_db ''Ann'' ''ann@example.com''
       ''Str0ng!Pass'' ''en'' [])) = []"
  unfolding register_user_ok [OF ann_register_ok no_store_failure_env0(2)]
  by (simp add: create_user_session_result env_fail_def empty_db_def)

subsection \<open>C2: password change\<close>

text \<open>
  C2. With the token column unique: when \<open>change_user_password\<close> is called for an
  existing user with a current password that verifies and a new password that passes
  the policy, the call succeeds, the user's stored hash becomes the hash of the new
  password, no session of that user is active afterwards, and \<open>is_session_valid\<close>
  answers false for the token of every session the user had, at any later time.
\<close>

theorem change_password_revokes_sessions:
  assumes "unique_tokens d"
    and "find (\<lambda>u. u_id u = uid) (users d) = Some usr"
    and "check_password B usr cur = Inr True"
    and "fst (validate_password new)"
  shows "success (fst (change_user_password B e d uid cur new))
     \<and> find (\<lambda>u. u_id u = uid) (users (snd (change_user_password B e d uid cur new)))
         = Some (usr\<lparr>u_password_hash := Some (hashpw B new (gensalt e))\<rparr>)
     \<and> (\<forall>s \<in> set (user_sessions d). s_user_id s = uid \<longrightarrow>
          (\<forall>s' \<in> set (user_sessions (snd (change_user_password B e d uid cur new))).
              session_token s' = session_token s \<longrightarrow> \<not> s_is_active s')
          \<and> (\<forall>e'. fst (is_session_valid e'
                 (snd (change_user_password B e d uid cur new)) (session_token s)) = False))"
proof -
  let ?d' = "snd (change_user_password B e d uid cur new)"
  let ?Q = "\<lambda>s. s_user_id s = uid \<and> s_is_active s"
  note ok = change_user_password_ok [OF assms(2,3,4), of e]
  from assms(1) have dist: "distinct (map session_token (user_sessions d))"
    by (simp add: unique_tokens_def)
  have ss': "user_sessions ?d' = update_all ?Q revoke (user_sessions d)"
    by (simp add: ok)
  have dist': "distinct (map session_token (user_sessions ?d'))"
    unfolding ss' using dist by (simp add: map_key_update_all revoke_def)
  then have u': "unique_tokens ?d'" by (simp add: unique_tokens_def)
  have a: "success (fst (change_user_password B e d uid cur new))"
    by (simp add: ok succeeded_def)
  have "u_id usr = uid" using find_by_id [OF assms(2)] .
  then have b: "find (\<lambda>u. u_id u = uid) (users ?d')
      = Some (usr\<lparr>u_password_hash := Some (hashpw B new (gensalt e))\<rparr>)"
    using find_update_first_same [OF assms(2),
        of "\<lambda>u. u\<lparr>u_password_hash := Some (hashpw B new (gensalt e))\<rparr>"]
    by (simp add: ok)
  have c: "\<not> s_is_active s'"
    if s: "s \<in> set (user_sessions d)" "s_user_id s = uid"
      and s': "s' \<in> set (user_sessions ?d')" "session_token s' = session_token s" for s s'
  proof -
    from set_update_all [OF s'(1) [unfolded ss']]
    show ?thesis
    proof
      assume k: "s' \<in> set (user_sessions d) \<and> \<not> ?Q s'"
      with same_token_same_row [OF dist _ s(1) s'(2)] have "s' = s" by simp
      with k s(2) show ?thesis by simp
    next
      assume "\<exists>x \<in> set (user_sessions d). ?Q x \<and> s' = revoke x"
      then show ?thesis by (auto simp: revoke_def)
    qed
  qed
  have v: "fst (is_session_valid e' ?d' (session_token s)) = False"
    if s: "s \<in> set (user_sessions d)" "s_user_id s = uid" for s e'
    using is_session_valid_true_iff [OF u', of e' "session_token s"] c [OF s] by blast
  from a b c v show ?thesis by blast
qed

theorem change_password_revokes_sessions_witness:
  "unique_tokens db9
   \<and> find (\<lambda>u. u_id u = 1) (users db9) = Some user9
   \<and> check_password bcrypt_sim user9 ''Str0ng!Pass'' = Inr True
   \<and> fst (validate_password new_password)
   \<and> fst (is_session_valid env0 db9 ''jti-1'')
   \<and> success (fst (change_user_password bcrypt_sim env0 db9 1 ''Str0ng!Pass'' new_password))
   \<and> fst (is_session_valid env0
        (snd (change_user_password bcrypt_sim env0 db9 1 ''Str0ng!Pass'' new_password))
        ''jti-1'') = False"
proof -
  have h: "unique_tokens db9" "find (\<lambda>u. u_id u = 1) (users db9) = Some user9"
    "check_password bcrypt_sim user9 ''Str0ng!Pass'' = Inr True"
    by (simp_all add: unique_tokens_def db9_def user9_def session5_def check_password_def
        bcrypt_sim_def)
  have p: "fst (validate_password new_password)"
    unfolding new_password_def by code_simp
  have s: "session5 \<in> set (user_sessions db9)" "s_user_id session5 = 1"
    "session_token session5 = ''jti-1''"
    by (simp_all add: db9_def session5_def)
  have v: "fst (is_session_valid env0 db9 ''jti-1'')"
    by (simp add: is_session_valid_def is_expired_def db9_def session5_def env0_def)
  from change_password_revokes_sessions [OF h p, of env0] s h p v show ?thesis
    by auto
qed

subsection \<open>C3: verifying against an absent or malformed hash\<close>

text \<open>
  C3 (as the code has it). With an absent stored hash (\<open>None\<close> or empty), or an empty
  password, \<open>check_password\<close> returns false and does not raise, whatever the library
  is. With a non-empty password and stored hash the answer is the library's \<open>checkpw\<close>,
  including the exception it raises.
\<close>

theorem check_password_absent_hash:
  "(u_password_hash u = None \<or> u_password_hash u = Some [] \<or> p = [] \<longrightarrow>
      check_password B u p = Inr False)
   \<and> (\<forall>h. u_password_hash u = Some h \<and> h \<noteq> [] \<and> p \<noteq> [] \<longrightarrow>
      check_password B u p = checkpw B p h)"
  by (cases "u_password_hash u") (simp_all add: check_password_def)

theorem check_password_absent_hash_witness:
  "check_password bcrypt_sim (user9\<lparr>u_password_hash := None\<rparr>) ''secret'' = Inr False
   \<and> check_password bcrypt_sim (user9\<lparr>u_password_hash := Some []\<rparr>) ''secret'' = Inr False
   \<and> check_password bcrypt_sim user9 ''Str0ng!Pass'' = Inr True"
  using check_password_absent_hash [of "user9\<lparr>u_password_hash := None\<rparr>" "''secret''" bcrypt_sim]
    check_password_absent_hash [of "user9\<lparr>u_password_hash := Some []\<rparr>" "''secret''" bcrypt_sim]
    check_password_absent_hash [of user9 "''Str0ng!Pass''" bcrypt_sim]
  by (simp add: user9_def bcrypt_sim_def)

text \<open>
  C3 as stated also covers malformed stored hashes. On a stored string that is not a
  bcrypt hash the library raises, and so does \<open>check_password\<close>.
\<close>

theorem check_password_malformed_hash_counterexample:
  "check_password bcrypt_sim (user9\<lparr>u_password_hash := Some ''not-a-bcrypt-hash''\<rparr>) ''secret''
     = Inl ValueError"
  by (simp add: check_password_def bcrypt_sim_def user9_def)

subsection \<open>C4: registering the same email twice\<close>

text \<open>
  C4 (as the code has it). Two \<open>register_user\<close> calls with acceptable names and
  passwords, whose emails both pass \<open>validate_email\<close> and are equal after lower-casing
  and trimming, the email not being registered before, and the store taking the session
  row of the first call (the commit does not raise, the drawn \<open>jti\<close> is new): the first
  succeeds, and the second, run on the store the first left, fails with "Email already
  registered" and changes nothing.
\<close>

theorem duplicate_email_rejected:
  assumes "name1 \<noteq> []" "py_strip name1 \<noteq> []" "name2 \<noteq> []" "py_strip name2 \<noteq> []"
    and "validate_email email1" "validate_email email2"
    and "fst (validate_password password1)" "fst (validate_password password2)"
    and "py_strip (py_lower email1) = py_strip (py_lower email2)"
    and "find (\<lambda>u. u_email u = py_strip (py_lower email1)) (users d) = None"
    and "\<not> session_commit_raises e1"
    and "access_jti e1 \<notin> session_token ` set (user_sessions d)"
  shows "success (fst (register_user B e1 d name1 email1 password1 lang1 kw1))
     \<and> register_user B e2 (snd (register_user B e1 d name1 email1 password1 lang1 kw1))
          name2 email2 password2 lang2 kw2
        = (failure ''Email already registered'',
           snd (register_user B e1 d name1 email1 password1 lang1 kw1))"
proof -
  let ?d1 = "snd (register_user B e1 d name1 email1 password1 lang1 kw1)"
  let ?row = "new_user_row B e1 d name1 email1 password1 lang1 kw1"
  have ok: "register_ok d name1 email1 password1"
    using assms by (simp add: register_ok_def)
  have sf: "\<not> session_store_fails e1 d"
    using assms(11,12) by (simp add: session_store_fails_def)
  have a: "success (fst (register_user B e1 d name1 email1 password1 lang1 kw1))"
    by (simp add: register_user_ok [OF ok sf])
  have "users ?d1 = users d @ [?row]"
    by (simp add: register_user_ok [OF ok sf] create_user_session_users)
  moreover have "u_email ?row = py_strip (py_lower email2)"
    using assms(9) by (simp add: new_user_row_def)
  ultimately have "find (\<lambda>u. u_email u = py_strip (py_lower email2)) (users ?d1) = Some ?row"
    using assms(9,10) by (simp add: find_append_last)
  from register_user_duplicate [OF assms(3,4,6,8) this] a show ?thesis by simp
qed

theorem duplicate_email_rejected_witness:
  "py_strip (py_lower ''A@B.com'') = py_strip (py_lower ''a@b.COM'')
   \<and> success (fst (register_user bcrypt_sim env0 empty_db ''Ann'' ''A@B.com''
        ''Str0ng!Pass'' ''en'' []))
   \<and> register_user bcrypt_sim env0
        (snd (register_user bcrypt_sim env0 empty_db ''Ann'' ''A@B.com'' ''Str0ng!Pass'' ''en'' []))
        ''Bob'' ''a@b.COM'' ''Str0ng!Pass'' ''en'' []
      = (failure ''Email already registered'',
         snd (register_user bcrypt_sim env0 empty_db ''Ann'' ''A@B.com'' ''Str0ng!Pass'' ''en'' []))"
proof -
  have n: "''Ann'' \<noteq> []" "py_strip ''Ann'' \<noteq> []" "''Bob'' \<noteq> []" "py_strip ''Bob'' \<noteq> []"
    by code_simp+
  have v: "validate_email ''A@B.com''" "validate_email ''a@b.COM''"
    by code_simp+
  have p: "fst (validate_password ''Str0ng!Pass'')" by code_simp
  have q: "py_strip (py_lower ''A@B.com'') = py_strip (py_lower ''a@b.COM'')" by code_simp
  have f: "find (\<lambda>u. u_email u = py_strip (py_lower ''A@B.com'')) (users empty_db) = None"
    by (simp add: empty_db_def)
  have s: "\<not> session_commit_raises env0"
    "access_jti env0 \<notin> session_token ` set (user_sessions empty_db)"
    by (simp_all add: env0_def empty_db_def)
  from duplicate_email_rejected
    [OF n v p p q f s, of bcrypt_sim "''en''" "[]" env0 "''en''" "[]"] q
  show ?thesis by simp
qed

text \<open>
  C4 as stated includes emails that differ in surrounding whitespace. \<open>validate_email\<close>
  runs on the email as submitted, before it is trimmed: after "A@B.com" is registered,
  " a@b.com " (equal to it after lower-casing and trimming) is turned down with
  "Valid email is required", not with the duplicate-email message.
\<close>

theorem whitespace_email_rejected_counterexample:
  "py_strip (py_lower ''A@B.com'') = py_strip (py_lower '' a@b.com '')
   \<and> success (fst (register_user bcrypt_sim env0 empty_db ''Ann'' ''A@B.com''
        ''Str0ng!Pass'' ''en'' []))
   \<and> fst (register_user bcrypt_sim env0
        (snd (register_user bcrypt_sim env0 empty_db ''Ann'' ''A@B.com'' ''Str0ng!Pass'' ''en'' []))
        ''Ann'' '' a@b.com '' ''Str0ng!Pass'' ''en'' [])
      = failure ''Valid email is required''
   \<and> failure ''Valid email is required'' \<noteq> failure ''Email already registered''"
proof -
  have n: "''Ann'' \<noteq> []" "py_strip ''Ann'' \<noteq> []" by code_simp+
  have v: "validate_email ''A@B.com''" "\<not> validate_email '' a@b.com ''" by code_simp+
  have p: "fst (validate_password ''Str0ng!Pass'')" by code_simp
  have q: "py_strip (py_lower ''A@B.com'') = py_strip (py_lower '' a@b.com '')" by code_simp
  have ok: "register_ok empty_db ''Ann'' ''A@B.com'' ''Str0ng!Pass''"
    using n v p by (simp add: register_ok_def empty_db_def)
  have a: "success (fst (register_user bcrypt_sim env0 empty_db ''Ann'' ''A@B.com''
        ''Str0ng!Pass'' ''en'' []))"
    by (simp add: register_user_ok [OF ok no_store_failure_env0(1)])
  have b: "failure ''Valid email is required'' \<noteq> failure ''Email already registered''"
    by (simp add: failure_def)
  from q a b register_user_invalid_email [OF n v(2)] show ?thesis by simp
qed

subsection \<open>C5: session validity\<close>

text \<open>
  C5 (as the code has it). With the token column unique, \<open>is_session_valid\<close> returns
  true exactly when a session with that token exists, is active and the current time is
  not after \<open>expires_at\<close> (the time \<open>expires_at\<close> itself still counts as valid); and
  when it returns true, that session's \<open>last_activity\<close> is set to the current time and
  the users are untouched.
\<close>

theorem is_session_valid_spec:
  assumes "unique_tokens d"
  shows "(fst (is_session_valid e d t) =
           (\<exists>s \<in> set (user_sessions d).
               session_token s = t \<and> s_is_active s \<and> utcnow e \<le> expires_at s))
         \<and> (fst (is_session_valid e d t) \<longrightarrow>
             (\<exists>s. find (\<lambda>x. session_token x = t) (user_sessions d) = Some s
               \<and> find (\<lambda>x. session_token x = t) (user_sessions (snd (is_session_valid e d t)))
                   = Some (s\<lparr>last_activity := utcnow e\<rparr>)
               \<and> users (snd (is_session_valid e d t)) = users d))"
  using is_session_valid_true_iff [OF assms] is_session_valid_touch [OF assms] by blast

theorem is_session_valid_spec_witness:
  "unique_tokens db5 \<and> fst (is_session_valid env0 db5 ''jti-1'')
   \<and> find (\<lambda>x. session_token x = ''jti-1'') (user_sessions (snd (is_session_valid env0 db5 ''jti-1'')))
       = Some (session5\<lparr>last_activity := 1000000000\<rparr>)"
proof -
  have u: "unique_tokens db5" by (simp add: unique_tokens_def db5_def)
  have f: "find (\<lambda>x. session_token x = ''jti-1'') (user_sessions db5) = Some session5"
    by (simp add: db5_def session5_def)
  have v: "fst (is_session_valid env0 db5 ''jti-1'')"
    using is_session_valid_spec [OF u, of env0 "''jti-1''"]
    by (simp add: db5_def session5_def env0_def)
  from is_session_valid_spec [OF u, of env0 "''jti-1''"] v f u show ?thesis
    by (simp add: env0_def)
qed

text \<open>
  C5 as stated asks for \<open>now < expires_at\<close>. At \<open>now = expires_at\<close> the only session
  is active and the check answers true.
\<close>

theorem is_session_valid_boundary_counterexample:
  "fst (is_session_valid env0 db5 ''jti-1'')
   \<and> user_sessions db5 = [session5]
   \<and> session_token session5 = ''jti-1''
   \<and> s_is_active session5
   \<and> \<not> (utcnow env0 < expires_at session5)"
  by (simp add: is_session_valid_def is_expired_def db5_def session5_def env0_def)

subsection \<open>C6: failed logins\<close>

text \<open>
  C6 (as the code has it). A login with non-empty email and password answers
  \<open>success = False\<close> with the message "Invalid credentials", and leaves the store as it
  was, both when no active user has the normalised email and when the user exists and
  \<open>check_password\<close> returns false. When the user exists and \<open>check_password\<close> raises (the
  stored hash is not a bcrypt hash), the \<open>except\<close> of \<open>authenticate_user\<close> answers
  "Authentication failed" instead, again leaving the store as it was.
\<close>

theorem authenticate_user_failure_messages:
  assumes "email \<noteq> []" "password \<noteq> []"
  shows "(find (\<lambda>u. u_email u = py_strip (py_lower email) \<and> u_is_active u) (users d) = None
            \<longrightarrow> authenticate_user B e d email password ip ua
                  = (failure ''Invalid credentials'', d))
     \<and> (\<forall>usr. find (\<lambda>u. u_email u = py_strip (py_lower email) \<and> u_is_active u) (users d)
                 = Some usr \<and> check_password B usr password = Inr False
            \<longrightarrow> authenticate_user B e d email password ip ua
                  = (failure ''Invalid credentials'', d))
     \<and> (\<forall>usr err. find (\<lambda>u. u_email u = py_strip (py_lower email) \<and> u_is_active u) (users d)
                 = Some usr \<and> check_password B usr password = Inl err
            \<longrightarrow> authenticate_user B e d email password ip ua
                  = (failure ''Authentication failed'', d))"
proof (intro conjI allI impI)
  assume "find (\<lambda>u. u_email u = py_strip (py_lower email) \<and> u_is_active u) (users d) = None"
  with assms show "authenticate_user B e d email password ip ua
      = (failure ''Invalid credentials'', d)"
    by (simp add: authenticate_user_def)
next
  fix usr
  assume "find (\<lambda>u. u_email u = py_strip (py_lower email) \<and> u_is_active u) (users d)
      = Some usr \<and> check_password B usr password = Inr False"
  with assms show "authenticate_user B e d email password ip ua
      = (failure ''Invalid credentials'', d)"
    by (simp add: authenticate_user_def)
next
  fix usr err
  assume "find (\<lambda>u. u_email u = py_strip (py_lower email) \<and> u_is_active u) (users d)
      = Some usr \<and> check_password B usr password = Inl err"
  with assms show "authenticate_user B e d email password ip ua
      = (failure ''Authentication failed'', d)"
    by (simp add: authenticate_user_def)
qed

theorem authenticate_user_failure_messages_witness:
  "authenticate_user bcrypt_sim env0 db9 ''nobody@example.com'' ''Str0ng!Pass'' None None
     = (failure ''Invalid credentials'', db9)
   \<and> authenticate_user bcrypt_sim env0 db9 ''Ann@Example.com'' ''Wr0ng!Pass'' None None
     = (failure ''Invalid credentials'', db9)
   \<and> authenticate_user bcrypt_sim env0 db6 ''Ann@Example.com'' ''Str0ng!Pass'' None None
     = (failure ''Authentication failed'', db6)"
proof -
  have n: "py_strip (py_lower ''nobody@example.com'') = ''nobody@example.com''"
    "py_strip (py_lower ''Ann@Example.com'') = ''ann@example.com''"
    by code_simp+
  have a: "find (\<lambda>u. u_email u = py_strip (py_lower ''nobody@example.com'') \<and> u_is_active u)
      (users db9) = None"
    unfolding n by (simp add: db9_def user9_def)
  have b: "find (\<lambda>u. u_email u = py_strip (py_lower ''Ann@Example.com'') \<and> u_is_active u)
      (users db9) = Some user9"
    "check_password bcrypt_sim user9 ''Wr0ng!Pass'' = Inr False"
    unfolding n by (simp_all add: db9_def user9_def check_password_def bcrypt_sim_def)
  have c: "find (\<lambda>u. u_email u = py_strip (py_lower ''Ann@Example.com'') \<and> u_is_active u)
      (users db6) = Some user6"
    "check_password bcrypt_sim user6 ''Str0ng!Pass'' = Inl ValueError"
    unfolding n by (simp_all add: db6_def user6_def user9_def check_password_def bcrypt_sim_def)
  have ne: "''nobody@example.com'' \<noteq> []" "''Ann@Example.com'' \<noteq> []"
    "''Str0ng!Pass'' \<noteq> []" "''Wr0ng!Pass'' \<noteq> []"
    by simp_all
  from authenticate_user_failure_messages [OF ne(1,3), of db9 bcrypt_sim env0 None None]
    authenticate_user_failure_messages [OF ne(2,4), of db9 bcrypt_sim env0 None None]
    authenticate_user_failure_messages [OF ne(2,3), of db6 bcrypt_sim env0 None None]
    a b c
  show ?thesis by blast
qed

text \<open>
  C6 as stated has the same message for an unknown user and for an existing user whose
  password does not verify. With a stored hash that is not a bcrypt hash the password of
  the existing user does not verify, because \<open>check_password\<close> raises, and the answer is
  "Authentication failed", which a login for an unknown email never gets.
\<close>

theorem authenticate_user_distinguishes_counterexample:
  "check_password bcrypt_sim user6 ''Str0ng!Pass'' = Inl ValueError
   \<and> authenticate_user bcrypt_sim env0 db6 ''nobody@example.com'' ''Str0ng!Pass'' None None
     = (failure ''Invalid credentials'', db6)
   \<and> authenticate_user bcrypt_sim env0 db6 ''ann@example.com'' ''Str0ng!Pass'' None None
     = (failure ''Authentication failed'', db6)
   \<and> failure ''Invalid credentials'' \<noteq> failure ''Authentication failed''"
proof -
  have n: "py_strip (py_lower ''nobody@example.com'') = ''nobody@example.com''"
    "py_strip (py_lower ''ann@example.com'') = ''ann@example.com''"
    by code_simp+
  have c: "check_password bcrypt_sim user6 ''Str0ng!Pass'' = Inl ValueError"
    by (simp add: user6_def user9_def check_password_def bcrypt_sim_def)
  have a: "authenticate_user bcrypt_sim env0 db6 ''nobody@example.com'' ''Str0ng!Pass'' None None
     = (failure ''Invalid credentials'', db6)"
    unfolding authenticate_user_def n by (simp add: db6_def user6_def user9_def)
  have f: "find (\<lambda>u. u_email u = ''ann@example.com'' \<and> u_is_active u) (users db6) = Some user6"
    by (simp add: db6_def user6_def user9_def)
  have b: "authenticate_user bcrypt_sim env0 db6 ''ann@example.com'' ''Str0ng!Pass'' None None
     = (failure ''Authentication failed'', db6)"
    unfolding authenticate_user_def n by (simp add: f c)
  have d: "failure ''Invalid credentials'' \<noteq> failure ''Authentication failed''"
    by (simp add: failure_def)
  from a b c d show ?thesis by blast
qed

subsection \<open>C7: password policy\<close>

text \<open>
  C7. \<open>validate_password\<close> returns an empty reason list exactly when the password has
  at least 8 characters, an uppercase letter, a lowercase letter, a digit and a character
  of the special set, and its flag says whether the list is empty. The reason of a rule
  is in the list exactly when that rule is unmet, no reason occurs twice, and the reasons
  come in the order length, uppercase, lowercase, digit, special.
\<close>

theorem validate_password_policy:
  "(fst (validate_password p) = (snd (validate_password p) = []))
   \<and> ((snd (validate_password p) = []) =
        (8 \<le> length p \<and> (\<exists>c \<in> set p. ch_range CHR ''A'' CHR ''Z'' c)
         \<and> (\<exists>c \<in> set p. ch_range CHR ''a'' CHR ''z'' c)
         \<and> (\<exists>c \<in> set p. ch_range CHR ''0'' CHR ''9'' c)
         \<and> (\<exists>c \<in> set p. c \<in> set special_characters)))
   \<and> ((msg_min_length \<in> set (snd (validate_password p))) = (length p < 8))
   \<and> ((msg_uppercase \<in> set (snd (validate_password p))) =
        (\<not> (\<exists>c \<in> set p. ch_range CHR ''A'' CHR ''Z'' c)))
   \<and> ((msg_lowercase \<in> set (snd (validate_password p))) =
        (\<not> (\<exists>c \<in> set p. ch_range CHR ''a'' CHR ''z'' c)))
   \<and> ((msg_number \<in> set (snd (validate_password p))) =
        (\<not> (\<exists>c \<in> set p. ch_range CHR ''0'' CHR ''9'' c)))
   \<and> ((msg_special \<in> set (snd (validate_password p))) =
        (\<not> (\<exists>c \<in> set p. c \<in> set special_characters)))
   \<and> distinct (snd (validate_password p))
   \<and> subseq (snd (validate_password p))
        [msg_min_length, msg_uppercase, msg_lowercase, msg_number, msg_special]"
  by (intro conjI validate_password_fst validate_password_empty_iff
      validate_password_reasons validate_password_order)

theorem validate_password_policy_witness:
  "fst (validate_password ''Str0ng!Pass'') \<and> snd (validate_password ''Str0ng!Pass'') = []
   \<and> \<not> fst (validate_password ''weakpass'')
   \<and> msg_uppercase \<in> set (snd (validate_password ''weakpass''))
   \<and> msg_lowercase \<notin> set (snd (validate_password ''weakpass''))"
  using validate_password_policy [of "''Str0ng!Pass''"]
    validate_password_policy [of "''weakpass''"]
  by (simp add: ch_range_def special_characters_def)

subsection \<open>C8: revocation\<close>

text \<open>
  C8. With the token column unique: \<open>logout\<close> twice on the same token reports success
  both times; after the first, every session with that token is inactive, and the second
  leaves the store as the first left it. \<open>revoke_user_session\<close> returns whether a session
  with that token exists, the same on both calls. And no operation reactivates: a session
  that is inactive before an operation has no active session of the same token after it.
\<close>

theorem revocation_idempotent_and_terminal:
  assumes "unique_tokens d"
  shows "success (fst (logout d t)) \<and> success (fst (logout (snd (logout d t)) t))
   \<and> (\<forall>s \<in> set (user_sessions (snd (logout d t))). session_token s = t \<longrightarrow> \<not> s_is_active s)
   \<and> snd (logout (snd (logout d t)) t) = snd (logout d t)
   \<and> fst (revoke_user_session d t) = (t \<in> session_token ` set (user_sessions d))
   \<and> fst (revoke_user_session (snd (revoke_user_session d t)) t) = fst (revoke_user_session d t)
   \<and> (\<forall>s \<in> set (user_sessions d). \<not> s_is_active s \<longrightarrow>
        (\<forall>s' \<in> set (user_sessions (run B e op d)).
            session_token s' = session_token s \<longrightarrow> \<not> s_is_active s'))"
proof -
  from assms have dist: "distinct (map session_token (user_sessions d))"
    by (simp add: unique_tokens_def)
  let ?ss' = "update_first (\<lambda>s. session_token s = t) revoke (user_sessions d)"
  have l1: "logout d t = (succeeded ''Logged out successfully'', d\<lparr>user_sessions := ?ss'\<rparr>)"
    by (simp add: logout_def revoke_user_session_result Let_def)
  have idem: "update_first (\<lambda>s. session_token s = t) revoke ?ss' = ?ss'"
    by (rule update_first_idem) (simp add: revoke_def)
  have l2: "logout (d\<lparr>user_sessions := ?ss'\<rparr>) t =
      (succeeded ''Logged out successfully'', d\<lparr>user_sessions := ?ss'\<rparr>)"
    by (simp add: logout_def revoke_user_session_result Let_def idem)
  have a: "success (fst (logout d t))" "success (fst (logout (snd (logout d t)) t))"
    by (simp_all add: l1 l2 succeeded_def)
  have b: "\<forall>s \<in> set (user_sessions (snd (logout d t))). session_token s = t \<longrightarrow> \<not> s_is_active s"
    using revoked_after_update_first [OF dist] by (simp add: l1)
  have c: "snd (logout (snd (logout d t)) t) = snd (logout d t)"
    by (simp add: l1 l2)
  have d1: "fst (revoke_user_session d t) = (t \<in> session_token ` set (user_sessions d))"
    by (simp add: revoke_user_session_result)
  have "session_token ` set ?ss' = session_token ` set (user_sessions d)"
  proof -
    have "map session_token ?ss' = map session_token (user_sessions d)"
      by (rule map_key_update_first) (simp add: revoke_def)
    then have "set (map session_token ?ss') = set (map session_token (user_sessions d))"
      by simp
    then show ?thesis by (simp only: set_map)
  qed
  then have d2: "fst (revoke_user_session (snd (revoke_user_session d t)) t)
      = fst (revoke_user_session d t)"
    by (simp add: revoke_user_session_result)
  have f: "\<forall>s \<in> set (user_sessions d). \<not> s_is_active s \<longrightarrow>
        (\<forall>s' \<in> set (user_sessions (run B e op d)).
            session_token s' = session_token s \<longrightarrow> \<not> s_is_active s')"
    using run_keeps_revoked [OF assms, of B e op] by (simp add: keeps_revoked_def)
  from a b c d1 d2 f show ?thesis by blast
qed

theorem revocation_idempotent_and_terminal_witness:
  "unique_tokens db8
   \<and> success (fst (logout db8 ''jti-1''))
   \<and> success (fst (logout (snd (logout db8 ''jti-1'')) ''jti-1''))
   \<and> snd (logout (snd (logout db8 ''jti-1'')) ''jti-1'') = snd (logout db8 ''jti-1'')
   \<and> fst (revoke_user_session db8 ''jti-1'')
   \<and> fst (revoke_user_session (snd (revoke_user_session db8 ''jti-1'')) ''jti-1'')
   \<and> session8 \<in> set (user_sessions db8) \<and> \<not> s_is_active session8
   \<and> filter (\<lambda>s'. session_token s' = ''jti-0'' \<and> s_is_active s')
        (user_sessions (run bcrypt_sim env0 (IsSessionValid ''jti-0'') db8)) = []"
proof -
  have u: "unique_tokens db8"
    by (simp add: unique_tokens_def db8_def session5_def session8_def)
  have m: "session8 \<in> set (user_sessions db8)" "\<not> s_is_active session8"
    "''jti-1'' \<in> session_token ` set (user_sessions db8)"
    by (simp_all add: db8_def session8_def session5_def)
  have k: "session_token session8 = ''jti-0''" by (simp add: session8_def)
  note r = revocation_idempotent_and_terminal
    [OF u, of "''jti-1''" bcrypt_sim env0 "IsSessionValid ''jti-0''"]
  from r m k have "\<forall>s' \<in> set (user_sessions (run bcrypt_sim env0 (IsSessionValid ''jti-0'') db8)).
      \<not> (session_token s' = ''jti-0'' \<and> s_is_active s')"
    by metis
  then have "filter (\<lambda>s'. session_token s' = ''jti-0'' \<and> s_is_active s')
        (user_sessions (run bcrypt_sim env0 (IsSessionValid ''jti-0'') db8)) = []"
    by (simp only: filter_empty_conv)
  with r u m show ?thesis by blast
qed

subsection \<open>C9: refresh\<close>

text \<open>
  C9. \<open>refresh_access_token\<close> never changes the store: no session is created and no
  user or session row is written. It fails with "User not found or inactive" when the
  account is missing or inactive. Otherwise it succeeds and returns an access token for
  that user, with a one-hour expiry, and neither a refresh token nor a user profile.
\<close>

theorem refresh_access_token_frame:
  "snd (refresh_access_token e d uid) = d
   \<and> (find (\<lambda>u. u_id u = uid) (users d) = None \<longrightarrow>
        fst (refresh_access_token e d uid) = failure ''User not found or inactive'')
   \<and> (\<forall>u. find (\<lambda>u. u_id u = uid) (users d) = Some u \<and> \<not> u_is_active u \<longrightarrow>
        fst (refresh_access_token e d uid) = failure ''User not found or inactive'')
   \<and> (\<forall>u. find (\<lambda>u. u_id u = uid) (users d) = Some u \<and> u_is_active u \<longrightarrow>
        success (fst (refresh_access_token e d uid))
        \<and> refresh_token (fst (refresh_access_token e d uid)) = None
        \<and> resp_user (fst (refresh_access_token e d uid)) = None
        \<and> (\<exists>tok. access_token (fst (refresh_access_token e d uid)) = Some tok
              \<and> jwt_kind tok = AccessToken \<and> jwt_sub tok = uid
              \<and> jwt_jti tok = access_jti e
              \<and> jwt_exp tok = utcnow e div 1000000 + 3600))"
proof (cases "find (\<lambda>u. u_id u = uid) (users d)")
  case None
  then show ?thesis by (simp add: refresh_access_token_def)
next
  case (Some u)
  note id = find_by_id [OF Some]
  show ?thesis
  proof (cases "u_is_active u")
    case True
    with Some id show ?thesis
      by (simp add: refresh_access_token_def create_access_token_def hours_def Let_def)
  next
    case False
    with Some show ?thesis by (simp add: refresh_access_token_def)
  qed
qed

theorem refresh_access_token_frame_witness:
  "snd (refresh_access_token env0 db9 1) = db9
   \<and> success (fst (refresh_access_token env0 db9 1))
   \<and> refresh_token (fst (refresh_access_token env0 db9 1)) = None
   \<and> access_token (fst (refresh_access_token env0 db9 1)) \<noteq> None
   \<and> fst (refresh_access_token env0 db9 2) = failure ''User not found or inactive''"
proof -
  have a: "find (\<lambda>u. u_id u = 1) (users db9) = Some user9" "u_is_active user9"
    by (simp_all add: db9_def user9_def)
  have b: "find (\<lambda>u. u_id u = 2) (users db9) = None"
    by (simp add: db9_def user9_def)
  from refresh_access_token_frame [of env0 db9 1] refresh_access_token_frame [of env0 db9 2] a b
  show ?thesis by auto
qed

subsection \<open>C10: the validity check on an expired session\<close>

text \<open>
  C10. For an active session whose \<open>expires_at\<close> lies before the current time,
  \<open>is_session_valid\<close> on its token returns false and stores the session with
  \<open>is_active\<close> false; the users are untouched, and every later check of that token
  answers false and changes nothing.
\<close>

theorem expired_session_revoked_by_validity_check:
  assumes "unique_tokens d" "s \<in> set (user_sessions d)" "s_is_active s"
    "expires_at s < utcnow e"
  shows "fst (is_session_valid e d (session_token s)) = False
     \<and> find (\<lambda>x. session_token x = session_token s)
          (user_sessions (snd (is_session_valid e d (session_token s))))
         = Some (s\<lparr>s_is_active := False\<rparr>)
     \<and> users (snd (is_session_valid e d (session_token s))) = users d
     \<and> (\<forall>e'. is_session_valid e' (snd (is_session_valid e d (session_token s))) (session_token s)
            = (False, snd (is_session_valid e d (session_token s))))"
proof -
  let ?t = "session_token s"
  let ?d' = "snd (is_session_valid e d ?t)"
  note r = is_session_valid_expired [OF assms]
  from assms(1) have dist: "distinct (map session_token (user_sessions d))"
    by (simp add: unique_tokens_def)
  have d': "?d' = d\<lparr>user_sessions :=
        update_first (\<lambda>x. session_token x = ?t \<and> s_is_active x) revoke (user_sessions d)\<rparr>"
    by (simp add: r(1))
  have fnd: "find (\<lambda>x. session_token x = ?t) (user_sessions ?d') = Some (revoke s)"
    unfolding d' using find_key_update_first [OF dist r(2), of revoke]
    by (simp add: revoke_def)
  have u': "unique_tokens ?d'"
    unfolding d' using dist by (simp add: unique_tokens_def map_key_update_first revoke_def)
  have "is_session_valid e' ?d' ?t = (False, ?d')" for e'
    by (rule is_session_valid_inactive [OF u' fnd]) (simp add: revoke_def)
  with fnd d' r(1) show ?thesis by (simp add: revoke_def)
qed

theorem expired_session_revoked_by_validity_check_witness:
  "unique_tokens db5 \<and> session5 \<in> set (user_sessions db5) \<and> s_is_active session5
   \<and> expires_at session5 < utcnow env_later
   \<and> fst (is_session_valid env_later db5 (session_token session5)) = False
   \<and> find (\<lambda>x. session_token x = session_token session5)
          (user_sessions (snd (is_session_valid env_later db5 (session_token session5))))
         = Some (session5\<lparr>s_is_active := False\<rparr>)"
proof -
  have h: "unique_tokens db5" "session5 \<in> set (user_sessions db5)" "s_is_active session5"
    "expires_at session5 < utcnow env_later"
    by (simp_all add: unique_tokens_def db5_def session5_def env_later_def env0_def)
  from expired_session_revoked_by_validity_check [OF h] h show ?thesis by simp
qed

end
